theory Spec2Isabelle
  imports Main
begin

section \<open>Go values as the package sees them through reflection\<close>

text \<open>
  The package \<open>typedregexp\<close> receives its schema and its output values as
  \<open>interface{}\<close> and inspects them with \<open>reflect\<close>. A struct field is modelled
  with what \<open>reflect.StructField\<close> and \<open>reflect.Value\<close> report of it: its name, whether
  it is exported (an unexported field cannot be set), the name of its type, and its value.
  A field of kind \<open>String\<close> carries its string; a field of any other kind is opaque.
\<close>

datatype fval = VStr string | VOther

datatype field = Field (fname: string) (fexported: bool) (ftname: string) (fvalue: fval)

datatype gstruct = GStruct (sname: string) (sfields: "field list")

text \<open>
  Types. A struct type is its name together with its field declarations; two defined
  struct types with different names are different types even when their fields agree.
  \<open>TOther\<close> stands for every type that is neither a struct, a pointer to a struct, a slice
  of structs nor a slice of pointers to structs.
\<close>

datatype fkind = KString | KOther

datatype ftype = FType string bool string fkind

datatype gotype = TStruct string "ftype list" | TPtr gotype | TSlice gotype | TOther string

fun kindOf :: "fval \<Rightarrow> fkind" where
  "kindOf (VStr _) = KString"
| "kindOf VOther = KOther"

fun ftypeOf :: "field \<Rightarrow> ftype" where
  "ftypeOf (Field n e t v) = FType n e t (kindOf v)"

fun typeOfStruct :: "gstruct \<Rightarrow> gotype" where
  "typeOfStruct (GStruct n fs) = TStruct n (map ftypeOf fs)"

text \<open>
  A value passed as \<open>interface{}\<close>. Pointers are addresses into a store of structs, so
  that two slots of a slice of pointers may share one struct; \<open>None\<close> is the nil pointer.
  A slice of structs holds its elements itself.
\<close>

type_synonym addr = nat

type_synonym heap = "addr \<Rightarrow> gstruct"

datatype govalue =
    VNil
  | VStruct gstruct
  | VPtr gotype "addr option"
  | VSlice gotype "gstruct list"
  | VPtrSlice gotype "addr option list"
  | VOtherValue string

fun typeOf :: "govalue \<Rightarrow> gotype option" where
  "typeOf VNil = None"
| "typeOf (VStruct s) = Some (typeOfStruct s)"
| "typeOf (VPtr t _) = Some (TPtr t)"
| "typeOf (VSlice t _) = Some (TSlice t)"
| "typeOf (VPtrSlice t _) = Some (TSlice (TPtr t))"
| "typeOf (VOtherValue n) = Some (TOther n)"

text \<open>
  A value is well typed in a store when every struct it holds or points to has the
  element type the value declares, as Go's type system guarantees.
\<close>

fun wellTyped :: "heap \<Rightarrow> govalue \<Rightarrow> bool" where
  "wellTyped h (VPtr t (Some a)) = (typeOfStruct (h a) = t)"
| "wellTyped h (VSlice t vs) = list_all (\<lambda>v. typeOfStruct v = t) vs"
| "wellTyped h (VPtrSlice t ps) =
     list_all (\<lambda>p. case p of None \<Rightarrow> True | Some a \<Rightarrow> typeOfStruct (h a) = t) ps"
| "wellTyped h _ = True"

section \<open>The external engines\<close>

text \<open>
  The regular-expression engine (\<open>regexp\<close>) and the template engine (\<open>text/template\<close>)
  are libraries the package calls; they are parameters of the model. A compiled
  \<open>*regexp.Regexp\<close> is the three methods the package uses: \<open>SubexpNames\<close>, the leftmost
  match \<open>FindStringSubmatch\<close> (the empty list is Go's nil: no match), and the list of all
  successive matches in input order, from which \<open>FindAllStringSubmatch\<close> takes a prefix.
\<close>

record regexp =
  SubexpNames :: "string list"
  FindStringSubmatch :: "string \<Rightarrow> string list"
  AllStringSubmatch :: "string \<Rightarrow> string list list"

text \<open>
  \<open>FindAllStringSubmatch(s, n)\<close>: by the library's contract, at most \<open>n\<close> matches when
  \<open>n \<ge> 0\<close>, all of them otherwise.
\<close>

definition FindAllStringSubmatch :: "regexp \<Rightarrow> string \<Rightarrow> int \<Rightarrow> string list list" where
  "FindAllStringSubmatch re s n =
     (if n < 0 then AllStringSubmatch re s else take (nat n) (AllStringSubmatch re s))"

text \<open>
  \<open>regexp.Compile\<close> returns an error message or a compiled expression.
  \<open>template.New("").Parse\<close> returns an error message or a parsed template, which is
  its \<open>Execute\<close> method: from the data struct to an error message or the output text.
\<close>

record engine =
  regexp_Compile :: "string \<Rightarrow> string + regexp"
  template_Parse :: "string \<Rightarrow> string + (gstruct \<Rightarrow> string + string)"

section \<open>Errors and panics\<close>

text \<open>
  The errors \<open>Compile\<close> returns, with the data its messages interpolate, and the
  panics of the entry points: the two type checks, \<open>PanicZeroValue\<close> for a method
  called on the zero \<open>reflect.Value\<close> or the nil \<open>reflect.Type\<close> of an untyped nil,
  and \<open>PanicReflect\<close> for every other panic raised inside \<open>reflect\<close>.
\<close>

datatype fault =
    ErrNotStruct gotype
  | ErrFieldNotString string string
  | ErrFieldNotSetable string
  | ErrFieldEmpty string
  | ErrFieldRegex string string
  | ErrTemplate string
  | ErrComposite string string
  | PanicValuesType gotype gotype
  | PanicSliceType gotype gotype gotype
  | PanicZeroValue
  | PanicReflect

section \<open>Compilation\<close>

record TypedRegexp =
  pattern :: regexp
  captureGroups :: gstruct
  submatchIndicesByFieldName :: "string \<rightharpoonup> nat list"

text \<open>
  The loop of \<open>wrapFieldsInCaptureGroups\<close> over the fields in declaration order: the
  four checks of one field, in the order of the source, then the wrapped pattern
  \<open>(?P<name>pattern)\<close>.
\<close>

fun wrapFields :: "engine \<Rightarrow> field list \<Rightarrow> fault + field list" where
  "wrapFields eng [] = Inr []"
| "wrapFields eng (f # fs) =
     (case fvalue f of
        VOther \<Rightarrow> Inl (ErrFieldNotString (fname f) (ftname f))
      | VStr p \<Rightarrow>
          if \<not> fexported f then Inl (ErrFieldNotSetable (fname f))
          else if p = [] then Inl (ErrFieldEmpty (fname f))
          else (case regexp_Compile eng p of
                  Inl err \<Rightarrow> Inl (ErrFieldRegex (fname f) err)
                | Inr _ \<Rightarrow>
                    (case wrapFields eng fs of
                       Inl e \<Rightarrow> Inl e
                     | Inr ws \<Rightarrow>
                         Inr (Field (fname f) (fexported f) (ftname f)
                                (VStr (''(?P<'' @ fname f @ ''>'' @ p @ '')'')) # ws))))"

fun wrapFieldsInCaptureGroups :: "engine \<Rightarrow> gstruct \<Rightarrow> fault + (gstruct \<times> string list)" where
  "wrapFieldsInCaptureGroups eng (GStruct n fs) =
     (case wrapFields eng fs of
        Inl e \<Rightarrow> Inl e
      | Inr ws \<Rightarrow> Inr (GStruct n ws, map fname fs))"

definition fillPatternTemplate :: "engine \<Rightarrow> string \<Rightarrow> gstruct \<Rightarrow> fault + string" where
  "fillPatternTemplate eng patternTemplate groupStruct =
     (case template_Parse eng patternTemplate of
        Inl err \<Rightarrow> Inl (ErrTemplate err)
      | Inr temp \<Rightarrow>
          (case temp groupStruct of
             Inl err \<Rightarrow> Inl (ErrTemplate err)
           | Inr buf \<Rightarrow> Inr buf))"

text \<open>
  The index loop of \<open>Compile\<close>. The inner loop looks for the first field name equal to
  the group name and appends the position to that field's list; a missing key reads as
  the nil slice.
\<close>

fun appendIndex :: "string list \<Rightarrow> string \<Rightarrow> nat \<Rightarrow> (string \<rightharpoonup> nat list) \<Rightarrow> (string \<rightharpoonup> nat list)" where
  "appendIndex [] submatch i indices = indices"
| "appendIndex (fieldName # fieldNames) submatch i indices =
     (if fieldName = submatch
      then indices(fieldName \<mapsto> (case indices fieldName of None \<Rightarrow> [] | Some is \<Rightarrow> is) @ [i])
      else appendIndex fieldNames submatch i indices)"

fun buildIndices :: "string list \<Rightarrow> string list \<Rightarrow> nat \<Rightarrow> (string \<rightharpoonup> nat list) \<Rightarrow> (string \<rightharpoonup> nat list)" where
  "buildIndices fieldNames [] i indices = indices"
| "buildIndices fieldNames (submatch # rest) i indices =
     buildIndices fieldNames rest (Suc i) (appendIndex fieldNames submatch i indices)"

definition Compile :: "engine \<Rightarrow> string \<Rightarrow> govalue \<Rightarrow> fault + TypedRegexp" where
  "Compile eng patternTemplate cg =
     (case cg of
        VNil \<Rightarrow> Inl PanicZeroValue
      | VStruct s \<Rightarrow>
          (case wrapFieldsInCaptureGroups eng s of
             Inl e \<Rightarrow> Inl e
           | Inr (wrapped, fieldNames) \<Rightarrow>
               (case fillPatternTemplate eng patternTemplate wrapped of
                  Inl e \<Rightarrow> Inl e
                | Inr pat \<Rightarrow>
                    (case regexp_Compile eng pat of
                       Inl err \<Rightarrow> Inl (ErrComposite pat err)
                     | Inr re \<Rightarrow>
                         Inr \<lparr> pattern = re,
                               captureGroups = wrapped,
                               submatchIndicesByFieldName =
                                 buildIndices fieldNames (SubexpNames re) 0 Map.empty \<rparr>)))
      | _ \<Rightarrow> (case typeOf cg of None \<Rightarrow> Inl PanicZeroValue | Some ct \<Rightarrow> Inl (ErrNotStruct ct)))"

section \<open>Submatch resolution\<close>

text \<open>
  The loop of \<open>findFirstNonEmptySubmatchForField\<close> over the index list: an index
  at or beyond the length of the submatches ends the walk with the empty string, the
  first non-empty submatch is returned, and the empty string is the result when the list
  is exhausted.
\<close>

fun firstNonEmpty :: "nat list \<Rightarrow> string list \<Rightarrow> string" where
  "firstNonEmpty [] submatches = []"
| "firstNonEmpty (i # is) submatches =
     (if i \<ge> length submatches then []
      else if submatches ! i \<noteq> [] then submatches ! i
      else firstNonEmpty is submatches)"

definition indicesOf :: "TypedRegexp \<Rightarrow> string \<Rightarrow> nat list" where
  "indicesOf r fld = (case submatchIndicesByFieldName r fld of None \<Rightarrow> [] | Some is \<Rightarrow> is)"

definition findFirstNonEmptySubmatchForField :: "TypedRegexp \<Rightarrow> string \<Rightarrow> string list \<Rightarrow> string" where
  "findFirstNonEmptySubmatchForField r fld submatches = firstNonEmpty (indicesOf r fld) submatches"

text \<open>
  \<open>reflect.Value.SetString\<close> panics unless the field is settable and of kind
  \<open>String\<close>.
\<close>

fun setString :: "field \<Rightarrow> string \<Rightarrow> fault + field" where
  "setString (Field n e t (VStr _)) s = (if e then Inr (Field n e t (VStr s)) else Inl PanicReflect)"
| "setString (Field n e t VOther) s = Inl PanicReflect"

text \<open>
  The loop of \<open>assignSubmatchesToStruct\<close> over the fields of the output struct: the
  name of field \<open>i\<close> is read from the type of \<open>captureGroups\<close> (out of range there is
  a panic), and the field is set to whatever the resolution returns.
\<close>

fun assignFields :: "TypedRegexp \<Rightarrow> string list \<Rightarrow> field list \<Rightarrow> field list \<Rightarrow> fault + field list" where
  "assignFields r submatches ts [] = Inr []"
| "assignFields r submatches [] (f # fs) = Inl PanicReflect"
| "assignFields r submatches (t # ts) (f # fs) =
     (case setString f (findFirstNonEmptySubmatchForField r (fname t) submatches) of
        Inl e \<Rightarrow> Inl e
      | Inr f' \<Rightarrow>
          (case assignFields r submatches ts fs of
             Inl e \<Rightarrow> Inl e
           | Inr fs' \<Rightarrow> Inr (f' # fs')))"

fun assignSubmatchesToStruct :: "TypedRegexp \<Rightarrow> string list \<Rightarrow> gstruct \<Rightarrow> fault + gstruct" where
  "assignSubmatchesToStruct r submatches (GStruct n fs) =
     (case assignFields r submatches (sfields (captureGroups r)) fs of
        Inl e \<Rightarrow> Inl e
      | Inr fs' \<Rightarrow> Inr (GStruct n fs'))"

text \<open>
  Called with a pointer, \<open>assignSubmatchesToStruct\<close> first replaces it by its
  \<open>Elem\<close>; the \<open>Elem\<close> of a nil pointer is the zero \<open>Value\<close>, on which \<open>NumField\<close>
  panics. The writes go to the struct the pointer addresses.
\<close>

fun assignThroughPtr :: "TypedRegexp \<Rightarrow> string list \<Rightarrow> addr option \<Rightarrow> heap \<Rightarrow> fault + heap" where
  "assignThroughPtr r submatches None h = Inl PanicZeroValue"
| "assignThroughPtr r submatches (Some a) h =
     (case assignSubmatchesToStruct r submatches (h a) of
        Inl e \<Rightarrow> Inl e
      | Inr v \<Rightarrow> Inr (h(a := v)))"

section \<open>The entry points\<close>

definition Find :: "TypedRegexp \<Rightarrow> string \<Rightarrow> govalue \<Rightarrow> heap \<Rightarrow> fault + (bool \<times> heap)" where
  "Find r s vals h =
     (let t = typeOfStruct (captureGroups r) in
      case typeOf vals of
        None \<Rightarrow> Inl PanicZeroValue
      | Some vt \<Rightarrow>
          if vt \<noteq> TPtr t then Inl (PanicValuesType (TPtr t) vt)
          else
            let submatches = FindStringSubmatch (pattern r) s in
            if length submatches = 0 then Inr (False, h)
            else (case vals of
                    VPtr _ p \<Rightarrow>
                      (case assignThroughPtr r submatches p h of
                         Inl e \<Rightarrow> Inl e
                       | Inr h' \<Rightarrow> Inr (True, h'))
                  | _ \<Rightarrow> Inl PanicReflect))"

text \<open>
  The loop of \<open>FindAll\<close> pairs match number \<open>i\<close> with slot number \<open>i\<close>
  (\<open>slice.Index\<close> panics out of range). Over a slice of structs every paired slot is
  assigned; over a slice of pointers a nil slot is passed over with \<open>continue\<close>.
\<close>

fun assignAll :: "TypedRegexp \<Rightarrow> string list list \<Rightarrow> gstruct list \<Rightarrow> fault + gstruct list" where
  "assignAll r [] vs = Inr vs"
| "assignAll r (submatches # rest) [] = Inl PanicReflect"
| "assignAll r (submatches # rest) (v # vs) =
     (case assignSubmatchesToStruct r submatches v of
        Inl e \<Rightarrow> Inl e
      | Inr v' \<Rightarrow>
          (case assignAll r rest vs of
             Inl e \<Rightarrow> Inl e
           | Inr vs' \<Rightarrow> Inr (v' # vs')))"

fun assignAllPtr :: "TypedRegexp \<Rightarrow> string list list \<Rightarrow> addr option list \<Rightarrow> heap \<Rightarrow> fault + heap" where
  "assignAllPtr r [] ps h = Inr h"
| "assignAllPtr r (submatches # rest) [] h = Inl PanicReflect"
| "assignAllPtr r (submatches # rest) (None # ps) h = assignAllPtr r rest ps h"
| "assignAllPtr r (submatches # rest) (Some a # ps) h =
     (case assignThroughPtr r submatches (Some a) h of
        Inl e \<Rightarrow> Inl e
      | Inr h' \<Rightarrow> assignAllPtr r rest ps h')"

definition FindAll :: "TypedRegexp \<Rightarrow> string \<Rightarrow> govalue \<Rightarrow> heap \<Rightarrow> fault + (nat \<times> govalue \<times> heap)" where
  "FindAll r s valuesSlice h =
     (let t = typeOfStruct (captureGroups r) in
      case typeOf valuesSlice of
        None \<Rightarrow> Inl PanicZeroValue
      | Some sliceType \<Rightarrow>
          if sliceType \<noteq> TSlice t \<and> sliceType \<noteq> TSlice (TPtr t)
          then Inl (PanicSliceType (TSlice t) (TSlice (TPtr t)) sliceType)
          else (case valuesSlice of
                  VSlice et vs \<Rightarrow>
                    if length vs = 0 then Inr (0, valuesSlice, h)
                    else
                      let allSubmatches = FindAllStringSubmatch (pattern r) s (int (length vs)) in
                      (case assignAll r allSubmatches vs of
                         Inl e \<Rightarrow> Inl e
                       | Inr vs' \<Rightarrow> Inr (length allSubmatches, VSlice et vs', h))
                | VPtrSlice et ps \<Rightarrow>
                    if length ps = 0 then Inr (0, valuesSlice, h)
                    else
                      let allSubmatches = FindAllStringSubmatch (pattern r) s (int (length ps)) in
                      (case assignAllPtr r allSubmatches ps h of
                         Inl e \<Rightarrow> Inl e
                       | Inr h' \<Rightarrow> Inr (length allSubmatches, valuesSlice, h'))
                | _ \<Rightarrow> Inl PanicReflect))"

section \<open>Closed forms used in the statements\<close>

text \<open>
  The positions, counted from \<open>i\<close>, at which a name stands in a list of group names:
  what the index loop of \<open>Compile\<close> collects for one field.
\<close>

fun positions :: "string \<Rightarrow> string list \<Rightarrow> nat \<Rightarrow> nat list" where
  "positions fld [] i = []"
| "positions fld (n # ns) i =
     (if n = fld then i # positions fld ns (Suc i) else positions fld ns (Suc i))"

text \<open>
  The walk as the specification words it, to be compared with \<open>firstNonEmpty\<close>: an
  index beyond the submatches is treated as absent and the walk goes on to the next one.
\<close>

fun firstNonEmptySkipping :: "nat list \<Rightarrow> string list \<Rightarrow> string" where
  "firstNonEmptySkipping [] submatches = []"
| "firstNonEmptySkipping (i # is) submatches =
     (if i \<ge> length submatches then firstNonEmptySkipping is submatches
      else if submatches ! i \<noteq> [] then submatches ! i
      else firstNonEmptySkipping is submatches)"

text \<open>
  A field that \<open>SetString\<close> accepts, and the struct \<open>assignSubmatchesToStruct\<close> leaves
  behind when all its fields are such: every field holds what the resolution returned for
  its name.
\<close>

definition settableString :: "field \<Rightarrow> bool" where
  "settableString f = (fexported f \<and> kindOf (fvalue f) = KString)"

definition assignedField :: "TypedRegexp \<Rightarrow> string list \<Rightarrow> field \<Rightarrow> field" where
  "assignedField r submatches f =
     Field (fname f) (fexported f) (ftname f)
       (VStr (findFirstNonEmptySubmatchForField r (fname f) submatches))"

definition assignedStruct :: "TypedRegexp \<Rightarrow> string list \<Rightarrow> gstruct \<Rightarrow> gstruct" where
  "assignedStruct r submatches v =
     GStruct (sname v) (map (assignedField r submatches) (sfields v))"

text \<open>
  A field that passes the four checks \<open>wrapFieldsInCaptureGroups\<close> makes of it (a
  string, settable, not empty, compiling on its own), and the field written for it.
\<close>

definition fieldAccepted :: "engine \<Rightarrow> field \<Rightarrow> bool" where
  "fieldAccepted eng f =
     (case fvalue f of
        VOther \<Rightarrow> False
      | VStr p \<Rightarrow> fexported f \<and> p \<noteq> [] \<and> \<not> isl (regexp_Compile eng p))"

definition wrappedField :: "field \<Rightarrow> field" where
  "wrappedField f =
     Field (fname f) (fexported f) (ftname f)
       (case fvalue f of
          VStr p \<Rightarrow> VStr (''(?P<'' @ fname f @ ''>'' @ p @ '')'')
        | VOther \<Rightarrow> VOther)"

text \<open>
  A template references a field when the placeholder \<open>{{.Name}}\<close> of the field occurs
  in its text.
\<close>

fun occursIn :: "string \<Rightarrow> string \<Rightarrow> bool" where
  "occursIn w [] = (w = [])"
| "occursIn w (c # cs) = (take (length w) (c # cs) = w \<or> occursIn w cs)"

definition referencesField :: "string \<Rightarrow> string \<Rightarrow> bool" where
  "referencesField tmpl name = occursIn (''{{.'' @ name @ ''}}'') tmpl"

text \<open>
  The non-nil slots of a slice of pointers address different structs.
\<close>

definition distinctSlots :: "addr option list \<Rightarrow> bool" where
  "distinctSlots ps = distinct (filter (\<lambda>p. p \<noteq> None) ps)"

text \<open>
  The value of the first field of a struct that has the given name.
\<close>

fun fieldNamed :: "field list \<Rightarrow> string \<Rightarrow> fval option" where
  "fieldNamed [] n = None"
| "fieldNamed (f # fs) n = (if fname f = n then Some (fvalue f) else fieldNamed fs n)"

text \<open>
  The shape of an output value, as against its type: the field declarations of the struct
  a pointer or a slice leads to, whatever the struct type is called.
\<close>

fun shapeOfFind :: "gotype option \<Rightarrow> ftype list option" where
  "shapeOfFind (Some (TPtr (TStruct n fs))) = Some fs"
| "shapeOfFind _ = None"

fun shapeOfFindAll :: "gotype option \<Rightarrow> ftype list option" where
  "shapeOfFindAll (Some (TSlice (TStruct n fs))) = Some fs"
| "shapeOfFindAll (Some (TSlice (TPtr (TStruct n fs)))) = Some fs"
| "shapeOfFindAll _ = None"

definition schemaShape :: "TypedRegexp \<Rightarrow> ftype list" where
  "schemaShape r = map ftypeOf (sfields (captureGroups r))"

section \<open>The engines on the package's examples\<close>

text \<open>
  For concrete runs, the answers Go's \<open>text/template\<close> and \<open>regexp\<close> give on the
  templates, patterns and inputs of the package's tests and examples, as a table. The
  character classes \<open>[a-z]+\<close> and \<open>[0-9]+\<close> stand where the tests write the
  corresponding backslash classes. A template of the table is its text pieces and field
  references; executing it writes each piece and each referenced field's string (the block
  of an \<open>{{if false}}\<close> writes nothing). A template or pattern that is not in the table
  reads as an error, and no statement below rests on such an entry. An input that is not
  listed reads as no match; the one such input used below is \<open>foo\<close> against the
  alternatives pattern, which Go does not match either (\<open>TestFind_NoMatch\<close>).
\<close>

datatype piece = Lit string | Ref string

fun execPieces :: "piece list \<Rightarrow> gstruct \<Rightarrow> string + string" where
  "execPieces [] g = Inr []"
| "execPieces (Lit s # ps) g =
     (case execPieces ps g of Inl e \<Rightarrow> Inl e | Inr out \<Rightarrow> Inr (s @ out))"
| "execPieces (Ref n # ps) g =
     (case fieldNamed (sfields g) n of
        Some (VStr v) \<Rightarrow> (case execPieces ps g of Inl e \<Rightarrow> Inl e | Inr out \<Rightarrow> Inr (v @ out))
      | _ \<Rightarrow> Inl (''cannot evaluate field '' @ n))"

definition exampleTemplates :: "string \<Rightarrow> string + (gstruct \<Rightarrow> string + string)" where
  "exampleTemplates t =
     (if t = ''a {{.Name}}|b {{.Name}}''
        then Inr (execPieces [Lit ''a '', Ref ''Name'', Lit ''|b '', Ref ''Name''])
      else if t = ''{{.Name}}( {{.S0m3th1ng}})?''
        then Inr (execPieces [Ref ''Name'', Lit ''( '', Ref ''S0m3th1ng'', Lit '')?''])
      else if t = ''hi( {{.Name}})?''
        then Inr (execPieces [Lit ''hi( '', Ref ''Name'', Lit '')?''])
      else if t = ''({{.Name}} {{.S0m3th1ng}}''
        then Inr (execPieces [Lit ''('', Ref ''Name'', Lit '' '', Ref ''S0m3th1ng''])
      else if t = ''(''
        then Inr (execPieces [Lit ''(''])
      else if t = ''{{if false}}{{.Name}} {{.S0m3th1ng}}{{end}}x''
        then Inr (execPieces [Lit ''x''])
      else Inl ''not in the table'')"

definition reNoGroups :: regexp where
  "reNoGroups = \<lparr> SubexpNames = [[]], FindStringSubmatch = (\<lambda>s. []), AllStringSubmatch = (\<lambda>s. []) \<rparr>"

definition reAlternatives :: regexp where
  "reAlternatives =
     \<lparr> SubexpNames = [[], ''Name'', ''Name''],
       FindStringSubmatch = (\<lambda>s.
         if s = ''a foo'' then [''a foo'', ''foo'', []]
         else if s = ''b foo'' then [''b foo'', [], ''foo'']
         else []),
       AllStringSubmatch = (\<lambda>s.
         if s = ''a foo b bar a baz extra''
         then [[''a foo'', ''foo'', []], [''b bar'', [], ''bar''], [''a baz'', ''baz'', []]]
         else []) \<rparr>"

definition reOptional :: regexp where
  "reOptional =
     \<lparr> SubexpNames = [[], ''Name'', [], ''S0m3th1ng''],
       FindStringSubmatch = (\<lambda>s. if s = ''foo'' then [''foo'', ''foo'', [], []] else []),
       AllStringSubmatch = (\<lambda>s. if s = ''foo'' then [[''foo'', ''foo'', [], []]] else []) \<rparr>"

definition reGreeting :: regexp where
  "reGreeting =
     \<lparr> SubexpNames = [[], [], ''Name''],
       FindStringSubmatch = (\<lambda>s. if s = ''hi'' then [''hi'', [], []] else []),
       AllStringSubmatch = (\<lambda>s. if s = ''hi'' then [[''hi'', [], []]] else []) \<rparr>"

definition examplePatterns :: "string \<Rightarrow> string + regexp" where
  "examplePatterns p =
     (if p = ''[a-z]+'' \<or> p = ''[0-9]+'' \<or> p = ''x'' then Inr reNoGroups
      else if p = ''a (?P<Name>[a-z]+)|b (?P<Name>[a-z]+)'' then Inr reAlternatives
      else if p = ''(?P<Name>[a-z]+)( (?P<S0m3th1ng>[a-z]+))?'' then Inr reOptional
      else if p = ''hi( (?P<Name>[a-z]+))?'' then Inr reGreeting
      else if p = ''('' then Inl ''error parsing regexp: missing closing ): `(`''
      else if p = ''((?P<Name>[a-z]+) (?P<S0m3th1ng>[0-9]+)''
        then Inl ''error parsing regexp: missing closing ): `((?P<Name>[a-z]+) (?P<S0m3th1ng>[0-9]+)`''
      else Inl ''not in the table'')"

definition exampleEngine :: engine where
  "exampleEngine = \<lparr> regexp_Compile = examplePatterns, template_Parse = exampleTemplates \<rparr>"

text \<open>
  The struct type \<open>CaptureGroups\<close> of the tests, with its two exported string fields.
\<close>

definition CaptureGroups :: "string \<Rightarrow> string \<Rightarrow> gstruct" where
  "CaptureGroups name something =
     GStruct ''typedregexp.CaptureGroups''
       [Field ''Name'' True ''string'' (VStr name),
        Field ''S0m3th1ng'' True ''string'' (VStr something)]"

definition CaptureGroupsT :: gotype where
  "CaptureGroupsT =
     TStruct ''typedregexp.CaptureGroups''
       [FType ''Name'' True ''string'' KString, FType ''S0m3th1ng'' True ''string'' KString]"

text \<open>
  The struct type \<open>InvalidFieldType\<close> of the tests, with its \<open>int\<close> field, and a
  struct type that has the fields of \<open>CaptureGroups\<close> under another name.
\<close>

definition InvalidFieldTypeT :: gotype where
  "InvalidFieldTypeT = TStruct ''typedregexp.InvalidFieldType'' [FType ''Age'' True ''int'' KOther]"

definition CaptureGroupsTwinT :: gotype where
  "CaptureGroupsTwinT =
     TStruct ''typedregexp.CaptureGroupsTwin''
       [FType ''Name'' True ''string'' KString, FType ''S0m3th1ng'' True ''string'' KString]"

text \<open>
  A store in which every address holds a \<open>CaptureGroups\<close> with empty fields.
\<close>

definition emptyStore :: heap where
  "emptyStore = (\<lambda>a. CaptureGroups [] [])"

text \<open>
  The three matchers \<open>Compile\<close> returns on the table's templates.
\<close>

definition matcherAlternatives :: TypedRegexp where
  "matcherAlternatives =
     \<lparr> pattern = reAlternatives,
       captureGroups = CaptureGroups ''(?P<Name>[a-z]+)'' ''(?P<S0m3th1ng>[0-9]+)'',
       submatchIndicesByFieldName = [''Name'' \<mapsto> [1, 2]] \<rparr>"

definition matcherOptional :: TypedRegexp where
  "matcherOptional =
     \<lparr> pattern = reOptional,
       captureGroups = CaptureGroups ''(?P<Name>[a-z]+)'' ''(?P<S0m3th1ng>[a-z]+)'',
       submatchIndicesByFieldName = [''Name'' \<mapsto> [1], ''S0m3th1ng'' \<mapsto> [3]] \<rparr>"

definition matcherGreeting :: TypedRegexp where
  "matcherGreeting =
     \<lparr> pattern = reGreeting,
       captureGroups = CaptureGroups ''(?P<Name>[a-z]+)'' ''(?P<S0m3th1ng>[0-9]+)'',
       submatchIndicesByFieldName = [''Name'' \<mapsto> [2]] \<rparr>"

section \<open>The index built by Compile\<close>

lemma appendIndex_eq:
  "appendIndex fns sm i m =
     (if sm \<in> set fns then m(sm \<mapsto> (case m sm of None \<Rightarrow> [] | Some is \<Rightarrow> is) @ [i]) else m)"
  by (induction fns) auto

lemma buildIndices_lookup:
  "(case buildIndices fns names i m fld of None \<Rightarrow> [] | Some is \<Rightarrow> is) =
     (case m fld of None \<Rightarrow> [] | Some is \<Rightarrow> is) @ (if fld \<in> set fns then positions fld names i else [])"
proof (induction names arbitrary: i m)
  case Nil
  then show ?case by simp
next
  case (Cons n ns)
  show ?case
    by (simp add: Cons.IH appendIndex_eq)
qed

lemma buildIndices_dom:
  "fld \<in> dom (buildIndices fns names i m) \<longleftrightarrow> fld \<in> dom m \<or> (fld \<in> set fns \<and> fld \<in> set names)"
proof (induction names arbitrary: i m)
  case Nil
  then show ?case by simp
next
  case (Cons n ns)
  show ?case
    by (auto simp add: Cons.IH appendIndex_eq)
qed

lemma positions_upt:
  "positions fld names i = map (\<lambda>k. i + k) (filter (\<lambda>k. names ! k = fld) [0..<length names])"
proof (induction names arbitrary: i)
  case Nil
  then show ?case by simp
next
  case (Cons n ns)
  have "[0..<length (n # ns)] = 0 # map Suc [0..<length ns]"
    by (simp add: upt_conv_Cons map_Suc_upt del: upt_Suc)
  then show ?case
    by (simp add: Cons.IH filter_map comp_def)
qed

lemma positions_ge: "k \<in> set (positions fld names i) \<Longrightarrow> i \<le> k"
  by (induction names arbitrary: i) (auto split: if_splits dest: Suc_leD)

lemma positions_sorted: "sorted_wrt (<) (positions fld names i)"
  by (induction names arbitrary: i) (auto dest: positions_ge)

section \<open>The walk over an index list\<close>

lemma firstNonEmpty_all_out: "\<forall>i\<in>set is. length sub \<le> i \<Longrightarrow> firstNonEmptySkipping is sub = []"
  by (induction "is") auto

lemma firstNonEmpty_sorted_skipping:
  "sorted_wrt (<) is \<Longrightarrow> firstNonEmpty is sub = firstNonEmptySkipping is sub"
proof (induction "is")
  case Nil
  then show ?case by simp
next
  case (Cons i "is")
  show ?case
  proof (cases "length sub \<le> i")
    case True
    with Cons.prems have "\<forall>k\<in>set is. length sub \<le> k" by auto
    then have "firstNonEmptySkipping is sub = []" by (rule firstNonEmpty_all_out)
    with True show ?thesis by simp
  next
    case False
    with Cons show ?thesis by simp
  qed
qed

lemma firstNonEmptySkipping_filter:
  "firstNonEmptySkipping is sub = firstNonEmpty (filter (\<lambda>i. i < length sub) is) sub"
  by (induction "is") auto

lemma firstNonEmpty_first:
  "j \<in> set is \<Longrightarrow> j < length sub \<Longrightarrow> sub ! j \<noteq> [] \<Longrightarrow> sorted_wrt (<) is \<Longrightarrow>
   \<forall>i\<in>set is. i < j \<longrightarrow> sub ! i = [] \<Longrightarrow> firstNonEmpty is sub = sub ! j"
proof (induction "is")
  case Nil
  then show ?case by simp
next
  case (Cons i "is")
  show ?case
  proof (cases "i = j")
    case True
    with Cons.prems show ?thesis by simp
  next
    case False
    with Cons.prems have "j \<in> set is" by simp
    with Cons.prems have "i < j" by auto
    with Cons.prems have "i < length sub" "sub ! i = []" by auto
    moreover have "firstNonEmpty is sub = sub ! j"
      using Cons.IH Cons.prems \<open>j \<in> set is\<close> by auto
    ultimately show ?thesis by simp
  qed
qed

section \<open>Assignment never panics on a value of the schema's type\<close>

lemma setString_ok:
  "settableString f \<Longrightarrow> setString f s = Inr (Field (fname f) (fexported f) (ftname f) (VStr s))"
  by (cases f; cases "fvalue f") (auto simp: settableString_def)

lemma ftypeOf_eq:
  "ftypeOf f = ftypeOf t \<longleftrightarrow>
     fname f = fname t \<and> fexported f = fexported t \<and> ftname f = ftname t \<and> kindOf (fvalue f) = kindOf (fvalue t)"
  by (cases f; cases t) auto

lemma assignFields_ok:
  "map ftypeOf fs = map ftypeOf ts \<Longrightarrow> list_all settableString ts \<Longrightarrow>
   assignFields r sub ts fs = Inr (map (assignedField r sub) fs)"
proof (induction r sub ts fs rule: assignFields.induct)
  case (1 r submatches ts)
  then show ?case by simp
next
  case (2 r submatches f fs)
  then show ?case by simp
next
  case (3 r submatches t ts f fs)
  from "3.prems" have ft: "ftypeOf f = ftypeOf t" and rest: "map ftypeOf fs = map ftypeOf ts"
    and st: "settableString t" and sts: "list_all settableString ts" by auto
  from ft st have sf: "settableString f" and nm: "fname t = fname f"
    by (auto simp: ftypeOf_eq settableString_def)
  show ?case
    using "3.IH"[OF _ rest sts] sf nm
    by (simp add: setString_ok assignedField_def)
qed

lemma assignSubmatchesToStruct_ok:
  "typeOfStruct v = typeOfStruct (captureGroups r) \<Longrightarrow>
   list_all settableString (sfields (captureGroups r)) \<Longrightarrow>
   assignSubmatchesToStruct r sub v = Inr (assignedStruct r sub v)"
  by (cases v; cases "captureGroups r") (simp add: assignFields_ok assignedStruct_def)

lemma ftypeOf_assignedField:
  "settableString f \<Longrightarrow> ftypeOf (assignedField r sub f) = ftypeOf f"
  by (cases f) (auto simp: assignedField_def settableString_def)

lemma typeOf_assignedStruct:
  "list_all settableString (sfields v) \<Longrightarrow> typeOfStruct (assignedStruct r sub v) = typeOfStruct v"
  by (cases v) (simp add: assignedStruct_def ftypeOf_assignedField list_all_iff)

section \<open>What every compiled matcher satisfies\<close>

lemma wrapFields_settable:
  "wrapFields eng fs = Inr ws \<Longrightarrow> list_all settableString ws"
proof (induction fs arbitrary: ws)
  case Nil
  then show ?case by simp
next
  case (Cons f fs)
  then show ?case
    by (auto simp: settableString_def split: fval.splits if_splits sum.splits)
qed

lemma Compile_Inr:
  "Compile eng tmpl cg = Inr r \<Longrightarrow>
   \<exists>s wrapped fieldNames pat re.
     cg = VStruct s \<and> wrapFieldsInCaptureGroups eng s = Inr (wrapped, fieldNames) \<and>
     fillPatternTemplate eng tmpl wrapped = Inr pat \<and> regexp_Compile eng pat = Inr re \<and>
     r = \<lparr> pattern = re, captureGroups = wrapped,
           submatchIndicesByFieldName = buildIndices fieldNames (SubexpNames re) 0 Map.empty \<rparr>"
  by (auto simp: Compile_def split: govalue.splits sum.splits option.splits prod.splits)

lemma Compile_settable:
  "Compile eng tmpl cg = Inr r \<Longrightarrow> list_all settableString (sfields (captureGroups r))"
proof -
  assume "Compile eng tmpl cg = Inr r"
  then obtain s wrapped fieldNames where
    w: "wrapFieldsInCaptureGroups eng s = Inr (wrapped, fieldNames)" and c: "captureGroups r = wrapped"
    by (auto dest!: Compile_Inr)
  from w show ?thesis unfolding c
    by (cases s) (auto split: sum.splits dest: wrapFields_settable)
qed

lemma Compile_sorted:
  "Compile eng tmpl cg = Inr r \<Longrightarrow> sorted_wrt (<) (indicesOf r fld)"
proof -
  assume "Compile eng tmpl cg = Inr r"
  then obtain wrapped fieldNames re where
    "r = \<lparr> pattern = re, captureGroups = wrapped,
           submatchIndicesByFieldName = buildIndices fieldNames (SubexpNames re) 0 Map.empty \<rparr>"
    by (blast dest: Compile_Inr)
  then have "submatchIndicesByFieldName r = buildIndices fieldNames (SubexpNames re) 0 Map.empty"
    by simp
  then show ?thesis
    using buildIndices_lookup[of fieldNames "SubexpNames re" 0 Map.empty fld]
    by (simp add: indicesOf_def positions_sorted)
qed

section \<open>The example matchers\<close>

lemma Compile_alternatives:
  "Compile exampleEngine ''a {{.Name}}|b {{.Name}}'' (VStruct (CaptureGroups ''[a-z]+'' ''[0-9]+''))
     = Inr matcherAlternatives"
  by (simp add: Compile_def exampleEngine_def examplePatterns_def exampleTemplates_def
      CaptureGroups_def fillPatternTemplate_def matcherAlternatives_def reAlternatives_def
      fun_eq_iff)

lemma Compile_optional:
  "Compile exampleEngine ''{{.Name}}( {{.S0m3th1ng}})?'' (VStruct (CaptureGroups ''[a-z]+'' ''[a-z]+''))
     = Inr matcherOptional"
  by (simp add: Compile_def exampleEngine_def examplePatterns_def exampleTemplates_def
      CaptureGroups_def fillPatternTemplate_def matcherOptional_def reOptional_def
      fun_eq_iff)

lemma Compile_greeting:
  "Compile exampleEngine ''hi( {{.Name}})?'' (VStruct (CaptureGroups ''[a-z]+'' ''[0-9]+''))
     = Inr matcherGreeting"
  by (simp add: Compile_def exampleEngine_def examplePatterns_def exampleTemplates_def
      CaptureGroups_def fillPatternTemplate_def matcherGreeting_def reGreeting_def
      fun_eq_iff)

section \<open>Find on a value of the right type\<close>

lemma Find_no_match:
  "typeOf vals = Some (TPtr (typeOfStruct (captureGroups r))) \<Longrightarrow>
   FindStringSubmatch (pattern r) s = [] \<Longrightarrow> Find r s vals h = Inr (False, h)"
  by (simp add: Find_def)

lemma Find_match:
  assumes "list_all settableString (sfields (captureGroups r))"
    and "typeOfStruct (h a) = typeOfStruct (captureGroups r)"
    and "FindStringSubmatch (pattern r) s \<noteq> []"
  shows "Find r s (VPtr (typeOfStruct (captureGroups r)) (Some a)) h =
           Inr (True, h(a := assignedStruct r (FindStringSubmatch (pattern r) s) (h a)))"
  using assms by (simp add: Find_def assignSubmatchesToStruct_ok)

lemma sfields_assignedStruct:
  "k < length (sfields v) \<Longrightarrow>
   fvalue (sfields (assignedStruct r sub v) ! k) =
     VStr (findFirstNonEmptySubmatchForField r (fname (sfields v ! k)) sub)"
  by (simp add: assignedStruct_def assignedField_def)

section \<open>The loops of FindAll\<close>

lemma settableString_ftypeOf:
  "ftypeOf f = ftypeOf t \<Longrightarrow> settableString f = settableString t"
  by (simp add: ftypeOf_eq settableString_def)

lemma settable_same_type:
  "map ftypeOf fs = map ftypeOf ts \<Longrightarrow> list_all settableString ts \<Longrightarrow> list_all settableString fs"
proof (induction fs arbitrary: ts)
  case Nil
  then show ?case by simp
next
  case (Cons f fs)
  from Cons.prems(1) obtain t ts' where ts: "ts = t # ts'" by (cases ts) auto
  with Cons.prems have ft: "ftypeOf f = ftypeOf t" and rest: "map ftypeOf fs = map ftypeOf ts'"
    and st: "settableString t" and sts: "list_all settableString ts'" by simp_all
  from ft st have "settableString f"
    by (simp add: settableString_ftypeOf[of f t])
  moreover from rest sts have "list_all settableString fs" by (rule Cons.IH)
  ultimately show ?case by simp
qed

lemma settable_typeOfStruct:
  "typeOfStruct v = typeOfStruct c \<Longrightarrow> list_all settableString (sfields c) \<Longrightarrow>
   list_all settableString (sfields v)"
proof -
  assume ty: "typeOfStruct v = typeOfStruct c" and st: "list_all settableString (sfields c)"
  from ty have "map ftypeOf (sfields v) = map ftypeOf (sfields c)"
    by (cases v; cases c) simp
  then show ?thesis using st by (rule settable_same_type)
qed

lemma assignAll_ok:
  "list_all (\<lambda>v. typeOfStruct v = typeOfStruct (captureGroups r)) vs \<Longrightarrow>
         length ms \<le> length vs \<Longrightarrow>
         list_all settableString (sfields (captureGroups r)) \<Longrightarrow>
         assignAll r ms vs =
           Inr (map2 (assignedStruct r) ms (take (length ms) vs) @ drop (length ms) vs)"
proof (induction r ms vs rule: assignAll.induct)
  case (1 r vs)
  then show ?case by simp
next
  case (2 r submatches rest)
  then show ?case by simp
next
  case (3 r submatches rest v vs)
  from "3.prems" have tv: "typeOfStruct v = typeOfStruct (captureGroups r)"
    and tvs: "list_all (\<lambda>v. typeOfStruct v = typeOfStruct (captureGroups r)) vs"
    and len: "length rest \<le> length vs" by auto
  have one: "assignSubmatchesToStruct r submatches v = Inr (assignedStruct r submatches v)"
    using tv "3.prems"(3) by (rule assignSubmatchesToStruct_ok)
  have "assignAll r rest vs =
          Inr (map2 (assignedStruct r) rest (take (length rest) vs) @ drop (length rest) vs)"
    using one tvs len "3.prems"(3) by (rule "3.IH")
  with one show ?case by simp
qed

lemma assignAllPtr_ok:
  "list_all settableString (sfields (captureGroups r)) \<Longrightarrow>
   list_all (\<lambda>p. case p of None \<Rightarrow> True
                       | Some a \<Rightarrow> typeOfStruct (h a) = typeOfStruct (captureGroups r)) ps \<Longrightarrow>
         length ms \<le> length ps \<Longrightarrow>
         \<exists>h'. assignAllPtr r ms ps h = Inr h' \<and>
              (\<forall>a. typeOfStruct (h' a) = typeOfStruct (h a)) \<and>
              (\<forall>a. Some a \<notin> set (take (length ms) ps) \<longrightarrow> h' a = h a)"
proof (induction r ms ps h rule: assignAllPtr.induct)
  case (1 r ps h)
  then show ?case by simp
next
  case (2 r submatches rest h)
  then show ?case by simp
next
  case (3 r submatches rest ps h)
  then show ?case by simp
next
  case (4 r submatches rest a ps h)
  let ?v = "assignedStruct r submatches (h a)"
  let ?h1 = "h(a := ?v)"
  note st = "4.prems"(1)
  from "4.prems"(2) have ta: "typeOfStruct (h a) = typeOfStruct (captureGroups r)"
    and tps: "list_all (\<lambda>p. case p of None \<Rightarrow> True
                       | Some a \<Rightarrow> typeOfStruct (h a) = typeOfStruct (captureGroups r)) ps"
    by simp_all
  from "4.prems"(3) have len: "length rest \<le> length ps" by simp
  have "assignSubmatchesToStruct r submatches (h a) = Inr ?v"
    using ta st by (rule assignSubmatchesToStruct_ok)
  then have step: "assignThroughPtr r submatches (Some a) h = Inr ?h1"
    by simp
  have tv: "typeOfStruct ?v = typeOfStruct (h a)"
    using settable_typeOfStruct[OF ta st] by (rule typeOf_assignedStruct)
  then have same: "\<And>b. typeOfStruct (?h1 b) = typeOfStruct (h b)" by simp
  have tps1: "list_all (\<lambda>p. case p of None \<Rightarrow> True
                       | Some a \<Rightarrow> typeOfStruct (?h1 a) = typeOfStruct (captureGroups r)) ps"
    using tps unfolding same .
  have "\<exists>h'. assignAllPtr r rest ps ?h1 = Inr h' \<and>
              (\<forall>a. typeOfStruct (h' a) = typeOfStruct (?h1 a)) \<and>
              (\<forall>a. Some a \<notin> set (take (length rest) ps) \<longrightarrow> h' a = ?h1 a)"
    using step st tps1 len by (rule "4.IH")
  then obtain h' where r: "assignAllPtr r rest ps ?h1 = Inr h'"
    and t: "\<And>b. typeOfStruct (h' b) = typeOfStruct (?h1 b)"
    and f: "\<And>b. Some b \<notin> set (take (length rest) ps) \<Longrightarrow> h' b = ?h1 b" by blast
  have run: "assignAllPtr r (submatches # rest) (Some a # ps) h = Inr h'"
    using step r by simp
  have types: "typeOfStruct (h' b) = typeOfStruct (h b)" for b
    using t[of b] same[of b] by simp
  have frame: "h' b = h b"
    if "Some b \<notin> set (take (length (submatches # rest)) (Some a # ps))" for b
  proof -
    from that have "b \<noteq> a" and "Some b \<notin> set (take (length rest) ps)" by auto
    with f[of b] show ?thesis by simp
  qed
  show ?case
    using run types frame by (intro exI[of _ h'] conjI allI impI)
qed

lemma assignAllPtr_slots:
  "list_all settableString (sfields (captureGroups r)) \<Longrightarrow>
   list_all (\<lambda>p. case p of None \<Rightarrow> True
                       | Some a \<Rightarrow> typeOfStruct (h a) = typeOfStruct (captureGroups r)) ps \<Longrightarrow>
         length ms \<le> length ps \<Longrightarrow> distinctSlots ps \<Longrightarrow>
         assignAllPtr r ms ps h = Inr h' \<Longrightarrow> j < length ms \<Longrightarrow> ps ! j = Some b \<Longrightarrow>
         h' b = assignedStruct r (ms ! j) (h b)"
proof (induction r ms ps h arbitrary: j rule: assignAllPtr.induct)
  case (1 r ps h)
  then show ?case by simp
next
  case (2 r submatches rest h)
  then show ?case by simp
next
  case (3 r submatches rest ps h)
  from "3.prems"(6,7) obtain j' where j: "j = Suc j'"
    by (cases j) auto
  from "3.prems"(4) have d: "distinctSlots ps"
    by (simp add: distinctSlots_def)
  from "3.prems"(2) have t: "list_all (\<lambda>p. case p of None \<Rightarrow> True
                       | Some a \<Rightarrow> typeOfStruct (h a) = typeOfStruct (captureGroups r)) ps"
    by simp
  from "3.prems"(3) have l: "length rest \<le> length ps" by simp
  from "3.prems"(5) have run: "assignAllPtr r rest ps h = Inr h'" by simp
  from "3.prems"(6) j have j': "j' < length rest" by simp
  from "3.prems"(7) j have pj: "ps ! j' = Some b" by simp
  from "3.IH"[OF "3.prems"(1) t l d run j' pj] j show ?case
    by simp
next
  case (4 r submatches rest a ps h)
  let ?v = "assignedStruct r submatches (h a)"
  let ?h1 = "h(a := ?v)"
  note st = "4.prems"(1)
  from "4.prems"(2) have ta: "typeOfStruct (h a) = typeOfStruct (captureGroups r)"
    and tps: "list_all (\<lambda>p. case p of None \<Rightarrow> True
                       | Some a \<Rightarrow> typeOfStruct (h a) = typeOfStruct (captureGroups r)) ps"
    by simp_all
  from "4.prems"(3) have len: "length rest \<le> length ps" by simp
  from "4.prems"(4) have notin: "Some a \<notin> set ps" and dist: "distinctSlots ps"
    by (simp_all add: distinctSlots_def)
  have "assignSubmatchesToStruct r submatches (h a) = Inr ?v"
    using ta st by (rule assignSubmatchesToStruct_ok)
  then have step: "assignThroughPtr r submatches (Some a) h = Inr ?h1"
    by simp
  have tv: "typeOfStruct ?v = typeOfStruct (h a)"
    using settable_typeOfStruct[OF ta st] by (rule typeOf_assignedStruct)
  then have same: "\<And>b. typeOfStruct (?h1 b) = typeOfStruct (h b)" by simp
  have tps1: "list_all (\<lambda>p. case p of None \<Rightarrow> True
                       | Some a \<Rightarrow> typeOfStruct (?h1 a) = typeOfStruct (captureGroups r)) ps"
    using tps unfolding same .
  from "4.prems"(5) step have run: "assignAllPtr r rest ps ?h1 = Inr h'" by simp
  show ?case
  proof (cases j)
    case 0
    with "4.prems"(7) have ba: "b = a" by simp
    from assignAllPtr_ok[OF st tps1 len]
    obtain h2 where r2: "assignAllPtr r rest ps ?h1 = Inr h2"
      and f2: "\<forall>c. Some c \<notin> set (take (length rest) ps) \<longrightarrow> h2 c = ?h1 c" by blast
    from r2 run have "h2 = h'" by simp
    with f2 have "\<forall>c. Some c \<notin> set (take (length rest) ps) \<longrightarrow> h' c = ?h1 c" by blast
    moreover have "Some a \<notin> set (take (length rest) ps)"
      using notin by (auto dest: in_set_takeD)
    ultimately have "h' a = ?h1 a" by blast
    with 0 ba show ?thesis by simp
  next
    case (Suc j')
    with "4.prems"(6,7) have j': "j' < length rest" and pj: "ps ! j' = Some b" by simp_all
    from j' len have "j' < length ps" by simp
    then have "ps ! j' \<in> set ps" by (rule nth_mem)
    with pj notin have "b \<noteq> a" by auto
    have "h' b = assignedStruct r (rest ! j') (?h1 b)"
      using step st tps1 len dist run j' pj by (rule "4.IH")
    with \<open>b \<noteq> a\<close> Suc show ?thesis by simp
  qed
qed

lemma FindAll_structs:
  assumes st: "list_all settableString (sfields (captureGroups r))"
    and wt: "list_all (\<lambda>v. typeOfStruct v = typeOfStruct (captureGroups r)) vs"
  shows "FindAll r s (VSlice (typeOfStruct (captureGroups r)) vs) h =
           Inr (min (length vs) (length (AllStringSubmatch (pattern r) s)),
                VSlice (typeOfStruct (captureGroups r))
                  (map2 (assignedStruct r) (take (length vs) (AllStringSubmatch (pattern r) s))
                     (take (length (AllStringSubmatch (pattern r) s)) vs)
                   @ drop (length (AllStringSubmatch (pattern r) s)) vs),
                h)"
proof (cases "vs = []")
  case True
  then show ?thesis by (simp add: FindAll_def)
next
  case False
  let ?ms = "FindAllStringSubmatch (pattern r) s (int (length vs))"
  have ms: "?ms = take (length vs) (AllStringSubmatch (pattern r) s)"
    by (simp add: FindAllStringSubmatch_def)
  have len: "length ?ms \<le> length vs" by (simp add: ms)
  have "assignAll r ?ms vs =
          Inr (map2 (assignedStruct r) ?ms (take (length ?ms) vs) @ drop (length ?ms) vs)"
    using wt len st by (rule assignAll_ok)
  moreover have "take (length ?ms) vs = take (length (AllStringSubmatch (pattern r) s)) vs"
    by (simp add: ms min_def)
  moreover have "drop (length ?ms) vs = drop (length (AllStringSubmatch (pattern r) s)) vs"
    by (simp add: ms min_def)
  moreover have "length ?ms = min (length vs) (length (AllStringSubmatch (pattern r) s))"
    by (simp add: ms)
  ultimately show ?thesis
    using False by (simp add: FindAll_def Let_def ms)
qed

lemma written_nth:
  "i < length vs \<Longrightarrow>
   (map2 f (take (length vs) ms) (take (length ms) vs) @ drop (length ms) vs) ! i =
     (if i < length ms then f (ms ! i) (vs ! i) else vs ! i)"
  by (auto simp: nth_append min_def)

lemma FindAll_pointers:
  assumes st: "list_all settableString (sfields (captureGroups r))"
    and wt: "list_all (\<lambda>p. case p of None \<Rightarrow> True
                | Some a \<Rightarrow> typeOfStruct (h a) = typeOfStruct (captureGroups r)) ps"
  shows "\<exists>h'. FindAll r s (VPtrSlice (typeOfStruct (captureGroups r)) ps) h =
                Inr (min (length ps) (length (AllStringSubmatch (pattern r) s)),
                     VPtrSlice (typeOfStruct (captureGroups r)) ps, h') \<and>
              assignAllPtr r (take (length ps) (AllStringSubmatch (pattern r) s)) ps h = Inr h'"
proof (cases "ps = []")
  case True
  then show ?thesis by (simp add: FindAll_def)
next
  case False
  let ?ms = "FindAllStringSubmatch (pattern r) s (int (length ps))"
  have ms: "?ms = take (length ps) (AllStringSubmatch (pattern r) s)"
    by (simp add: FindAllStringSubmatch_def)
  have len: "length ?ms \<le> length ps" by (simp add: ms)
  from assignAllPtr_ok[OF st wt len] obtain h' where "assignAllPtr r ?ms ps h = Inr h'"
    by blast
  then show ?thesis
    using False by (simp add: FindAll_def Let_def ms)
qed

lemma distinctSlots_later:
  assumes "distinctSlots ps" and "n \<le> j" and "j < length ps" and "ps ! j = Some a"
  shows "Some a \<notin> set (take n ps)"
proof
  assume "Some a \<in> set (take n ps)"
  then have 1: "Some a \<in> set (filter (\<lambda>p. p \<noteq> None) (take n ps))" by simp
  from assms(2,3) have "j - n < length (drop n ps)" by simp
  then have "drop n ps ! (j - n) \<in> set (drop n ps)" by (rule nth_mem)
  moreover from assms(2,3) have "drop n ps ! (j - n) = ps ! j" by simp
  ultimately have "Some a \<in> set (drop n ps)" using assms(4) by simp
  then have 2: "Some a \<in> set (filter (\<lambda>p. p \<noteq> None) (drop n ps))" by simp
  have "filter (\<lambda>p. p \<noteq> None) (take n ps @ drop n ps) =
          filter (\<lambda>p. p \<noteq> None) (take n ps) @ filter (\<lambda>p. p \<noteq> None) (drop n ps)"
    by (rule filter_append)
  then have "filter (\<lambda>p. p \<noteq> None) ps =
          filter (\<lambda>p. p \<noteq> None) (take n ps) @ filter (\<lambda>p. p \<noteq> None) (drop n ps)"
    by simp
  with assms(1) have "distinct (filter (\<lambda>p. p \<noteq> None) (take n ps) @ filter (\<lambda>p. p \<noteq> None) (drop n ps))"
    unfolding distinctSlots_def by simp
  then have "set (filter (\<lambda>p. p \<noteq> None) (take n ps)) \<inter>
                       set (filter (\<lambda>p. p \<noteq> None) (drop n ps)) = {}"
    by (simp only: distinct_append)
  with 1 2 show False by blast
qed

section \<open>Facts about the example values\<close>

lemma wellTyped_example:
  "wellTyped (\<lambda>a. CaptureGroups x y) (VPtr CaptureGroupsT (Some 0))"
  by (simp add: CaptureGroups_def CaptureGroupsT_def)

lemma typeOf_matcherAlternatives:
  "typeOfStruct (captureGroups matcherAlternatives) = CaptureGroupsT"
  by (simp add: matcherAlternatives_def CaptureGroups_def CaptureGroupsT_def)

lemma typeOf_matcherGreeting:
  "typeOfStruct (captureGroups matcherGreeting) = CaptureGroupsT"
  by (simp add: matcherGreeting_def CaptureGroups_def CaptureGroupsT_def)

lemma typeOf_CaptureGroups: "typeOfStruct (CaptureGroups x y) = CaptureGroupsT"
  by (simp add: CaptureGroups_def CaptureGroupsT_def)

lemma AllStringSubmatch_alternatives:
  "AllStringSubmatch (pattern matcherAlternatives) ''a foo b bar a baz extra'' =
     [[''a foo'', ''foo'', []], [''b bar'', [], ''bar''], [''a baz'', ''baz'', []]]"
  by (simp add: matcherAlternatives_def reAlternatives_def)

lemma FindAll_alternatives_structs:
  "FindAll matcherAlternatives ''a foo b bar a baz extra''
     (VSlice CaptureGroupsT [CaptureGroups [] [], CaptureGroups [] []]) h =
   Inr (2, VSlice CaptureGroupsT [CaptureGroups ''foo'' [], CaptureGroups ''bar'' []], h)"
  by (simp add: FindAll_def FindAllStringSubmatch_def matcherAlternatives_def reAlternatives_def
      CaptureGroups_def CaptureGroupsT_def findFirstNonEmptySubmatchForField_def indicesOf_def)

section \<open>Default values at a partial match\<close>

text \<open>
  Claim C1 (defaults survive a match that gives a field no value) against the code.
  The matcher is the one of \<open>TestFind_PartialFields\<close>, compiled from
  \<open>{{.Name}}( {{.S0m3th1ng}})?\<close>; the output struct is pre-populated with
  \<open>Name = "Jane Doe"\<close> and \<open>S0m3th1ng = "-1"\<close>. On the input \<open>foo\<close> the optional
  group does not take part, so no index of \<open>S0m3th1ng\<close> yields a non-empty submatch.
  \<open>Find\<close> returns true and the field \<open>S0m3th1ng\<close> then holds the empty string: the
  pre-populated \<open>-1\<close> is overwritten, because \<open>assignSubmatchesToStruct\<close> calls
  \<open>SetString\<close> on every field with whatever the resolution returned.
\<close>

theorem Find_partial_match_overwrites_default:
  "Compile exampleEngine ''{{.Name}}( {{.S0m3th1ng}})?'' (VStruct (CaptureGroups ''[a-z]+'' ''[a-z]+''))
     = Inr matcherOptional \<and>
   findFirstNonEmptySubmatchForField matcherOptional ''S0m3th1ng''
     (FindStringSubmatch (pattern matcherOptional) ''foo'') = [] \<and>
   Find matcherOptional ''foo'' (VPtr CaptureGroupsT (Some 0)) (\<lambda>a. CaptureGroups ''Jane Doe'' ''-1'')
     = Inr (True, (\<lambda>a. CaptureGroups ''Jane Doe'' ''-1'')(0 := CaptureGroups ''foo'' []))"
proof -
  have "Find matcherOptional ''foo'' (VPtr CaptureGroupsT (Some 0)) (\<lambda>a. CaptureGroups ''Jane Doe'' ''-1'')
     = Inr (True, (\<lambda>a. CaptureGroups ''Jane Doe'' ''-1'')(0 := CaptureGroups ''foo'' []))"
    by (simp add: Find_def matcherOptional_def reOptional_def CaptureGroups_def CaptureGroupsT_def
        findFirstNonEmptySubmatchForField_def indicesOf_def)
  moreover have "findFirstNonEmptySubmatchForField matcherOptional ''S0m3th1ng''
     (FindStringSubmatch (pattern matcherOptional) ''foo'') = []"
    by (simp add: matcherOptional_def reOptional_def findFirstNonEmptySubmatchForField_def
        indicesOf_def)
  ultimately show ?thesis
    using Compile_optional by simp
qed

section \<open>Fields that occur in several alternation branches\<close>

text \<open>
  Claim C2. A field has one index per occurrence of its group in the composite pattern,
  in ascending order. When the group of an earlier branch did not take part (its submatch
  is empty) and the group at index \<open>j\<close> did, with a non-empty submatch, then
  \<open>Find\<close> returns true and the field holds the submatch at \<open>j\<close>: the value of
  the branch that took part. The field is the one at position \<open>k\<close> of the output
  struct, \<open>fld\<close> is its name.
\<close>

theorem Find_resolves_participating_branch:
  assumes "Compile eng tmpl cg = Inr r"
    and "t = typeOfStruct (captureGroups r)"
    and "wellTyped h (VPtr t (Some a))"
    and "FindStringSubmatch (pattern r) s = sub"
    and "k < length (sfields (h a))"
    and "fld = fname (sfields (h a) ! k)"
    and "j \<in> set (indicesOf r fld)"
    and "j < length sub"
    and "sub ! j \<noteq> []"
    and "\<forall>i\<in>set (indicesOf r fld). i < j \<longrightarrow> sub ! i = []"
  shows "sorted_wrt (<) (indicesOf r fld) \<and>
         findFirstNonEmptySubmatchForField r fld sub = sub ! j \<and>
         (\<exists>h'. Find r s (VPtr t (Some a)) h = Inr (True, h') \<and>
               fvalue (sfields (h' a) ! k) = VStr (sub ! j))"
proof -
  from assms(1) have st: "list_all settableString (sfields (captureGroups r))"
    by (rule Compile_settable)
  from assms(1) have so: "sorted_wrt (<) (indicesOf r fld)"
    by (rule Compile_sorted)
  from assms(2,3) have ty: "typeOfStruct (h a) = typeOfStruct (captureGroups r)"
    by simp
  have res: "findFirstNonEmptySubmatchForField r fld sub = sub ! j"
    unfolding findFirstNonEmptySubmatchForField_def
    using assms(7,8,9) so assms(10) by (rule firstNonEmpty_first)
  from assms(8) have ne: "FindStringSubmatch (pattern r) s \<noteq> []"
    using assms(4) by auto
  have "Find r s (VPtr t (Some a)) h = Inr (True, h(a := assignedStruct r sub (h a)))"
    using Find_match[of r h a s] st ty ne assms(2,4) by simp
  moreover have "fvalue (sfields ((h(a := assignedStruct r sub (h a))) a) ! k) = VStr (sub ! j)"
    using sfields_assignedStruct[OF assms(5), of r sub] res assms(6) by simp
  ultimately show ?thesis
    using so res by blast
qed

text \<open>
  The matcher of \<open>TestFind_SecondAlternative\<close> on the input \<open>b foo\<close>: the group
  of the first branch is empty, the field \<open>Name\<close> receives \<open>foo\<close> from the
  second.
\<close>

theorem Find_resolves_participating_branch_witness:
  "Compile exampleEngine ''a {{.Name}}|b {{.Name}}'' (VStruct (CaptureGroups ''[a-z]+'' ''[0-9]+''))
     = Inr matcherAlternatives \<and>
   wellTyped (\<lambda>a. CaptureGroups [] []) (VPtr CaptureGroupsT (Some 0)) \<and>
   FindStringSubmatch (pattern matcherAlternatives) ''b foo'' = [''b foo'', [], ''foo''] \<and>
   indicesOf matcherAlternatives ''Name'' = [1, 2] \<and>
   findFirstNonEmptySubmatchForField matcherAlternatives ''Name'' [''b foo'', [], ''foo''] = ''foo'' \<and>
   (\<exists>h'. Find matcherAlternatives ''b foo'' (VPtr CaptureGroupsT (Some 0)) (\<lambda>a. CaptureGroups [] [])
            = Inr (True, h') \<and>
          fvalue (sfields (h' 0) ! 0) = VStr ''foo'')"
proof -
  let ?h = "\<lambda>a::nat. CaptureGroups [] []"
  have wt: "wellTyped ?h (VPtr CaptureGroupsT (Some 0))"
    by (rule wellTyped_example)
  have sub: "FindStringSubmatch (pattern matcherAlternatives) ''b foo'' = [''b foo'', [], ''foo'']"
    by (simp add: matcherAlternatives_def reAlternatives_def)
  have idx: "indicesOf matcherAlternatives ''Name'' = [1, 2]"
    by (simp add: matcherAlternatives_def indicesOf_def)
  have k: "0 < length (sfields (?h 0))" and fld: "''Name'' = fname (sfields (?h 0) ! 0)"
    by (simp_all add: CaptureGroups_def)
  have j: "2 \<in> set (indicesOf matcherAlternatives ''Name'')"
    "2 < length [''b foo'', [], ''foo'']" "[''b foo'', [], ''foo''] ! 2 \<noteq> []"
    "\<forall>i\<in>set (indicesOf matcherAlternatives ''Name''). i < 2 \<longrightarrow> [''b foo'', [], ''foo''] ! i = []"
    by (simp_all add: idx)
  from Find_resolves_participating_branch[OF Compile_alternatives
      typeOf_matcherAlternatives[symmetric] wt sub k fld j]
  show ?thesis
    using Compile_alternatives wt sub idx by simp
qed

section \<open>The result of Find\<close>

text \<open>
  Claim C3. For a compiled matcher and a pointer to a struct of the schema's type:
  when the pattern does not match, \<open>Find\<close> returns false and the store is the one it
  was given; when the pattern matches, \<open>Find\<close> returns true, whatever the fields
  resolve to.
\<close>

theorem Find_reports_match:
  assumes "Compile eng tmpl cg = Inr r"
    and "t = typeOfStruct (captureGroups r)"
    and "wellTyped h (VPtr t (Some a))"
  shows "(FindStringSubmatch (pattern r) s = [] \<longrightarrow>
            Find r s (VPtr t (Some a)) h = Inr (False, h)) \<and>
         (FindStringSubmatch (pattern r) s \<noteq> [] \<longrightarrow>
            (\<exists>h'. Find r s (VPtr t (Some a)) h = Inr (True, h')))"
proof -
  from assms(1) have st: "list_all settableString (sfields (captureGroups r))"
    by (rule Compile_settable)
  from assms(2,3) have ty: "typeOfStruct (h a) = typeOfStruct (captureGroups r)"
    by simp
  show ?thesis
    using Find_no_match[of "VPtr t (Some a)" r s h] Find_match[of r h a s] st ty assms(2)
    by auto
qed

text \<open>
  \<open>TestFind_NoMatch\<close>: the input \<open>foo\<close> is not matched, the pre-populated struct
  stays. The pattern \<open>hi( (?P<Name>[a-z]+))?\<close> matches \<open>hi\<close> with no group taking
  part: both fields resolve to the empty string and \<open>Find\<close> still returns true.
\<close>

theorem Find_reports_match_witness:
  "Compile exampleEngine ''a {{.Name}}|b {{.Name}}'' (VStruct (CaptureGroups ''[a-z]+'' ''[0-9]+''))
     = Inr matcherAlternatives \<and>
   wellTyped (\<lambda>a. CaptureGroups ''Jane Doe'' ''-1'') (VPtr CaptureGroupsT (Some 0)) \<and>
   FindStringSubmatch (pattern matcherAlternatives) ''foo'' = [] \<and>
   Find matcherAlternatives ''foo'' (VPtr CaptureGroupsT (Some 0)) (\<lambda>a. CaptureGroups ''Jane Doe'' ''-1'')
     = Inr (False, \<lambda>a. CaptureGroups ''Jane Doe'' ''-1'') \<and>
   Compile exampleEngine ''hi( {{.Name}})?'' (VStruct (CaptureGroups ''[a-z]+'' ''[0-9]+''))
     = Inr matcherGreeting \<and>
   FindStringSubmatch (pattern matcherGreeting) ''hi'' = [''hi'', [], []] \<and>
   findFirstNonEmptySubmatchForField matcherGreeting ''Name'' [''hi'', [], []] = [] \<and>
   findFirstNonEmptySubmatchForField matcherGreeting ''S0m3th1ng'' [''hi'', [], []] = [] \<and>
   (\<exists>h'. Find matcherGreeting ''hi'' (VPtr CaptureGroupsT (Some 0)) (\<lambda>a. CaptureGroups ''Jane Doe'' ''-1'')
     = Inr (True, h'))"
proof -
  let ?h = "\<lambda>a::nat. CaptureGroups ''Jane Doe'' ''-1''"
  have wt: "wellTyped ?h (VPtr CaptureGroupsT (Some 0))"
    by (rule wellTyped_example)
  have nomatch: "FindStringSubmatch (pattern matcherAlternatives) ''foo'' = []"
    by (simp add: matcherAlternatives_def reAlternatives_def)
  have match: "FindStringSubmatch (pattern matcherGreeting) ''hi'' = [''hi'', [], []]"
    by (simp add: matcherGreeting_def reGreeting_def)
  have none: "findFirstNonEmptySubmatchForField matcherGreeting ''Name'' [''hi'', [], []] = []"
    "findFirstNonEmptySubmatchForField matcherGreeting ''S0m3th1ng'' [''hi'', [], []] = []"
    by (simp_all add: matcherGreeting_def findFirstNonEmptySubmatchForField_def indicesOf_def)
  from Find_reports_match[OF Compile_alternatives typeOf_matcherAlternatives[symmetric] wt, of "''foo''"]
    nomatch
  have a: "Find matcherAlternatives ''foo'' (VPtr CaptureGroupsT (Some 0)) ?h = Inr (False, ?h)"
    by simp
  from Find_reports_match[OF Compile_greeting typeOf_matcherGreeting[symmetric] wt, of "''hi''"]
    match
  have b: "\<exists>h'. Find matcherGreeting ''hi'' (VPtr CaptureGroupsT (Some 0)) ?h = Inr (True, h')"
    by simp
  show ?thesis
    using Compile_alternatives Compile_greeting wt nomatch match none a b by simp
qed

section \<open>Indices beyond the submatches\<close>

text \<open>
  Claim C6. For every compiled matcher, every field and every list of submatches, the
  resolution returns what the walk that treats an out-of-bounds index as absent and goes
  on to the next index returns, and what the resolution itself returns on the index list
  without its out-of-bounds indices. The code ends its walk at the first out-of-bounds
  index; as \<open>Compile\<close> builds every index list in ascending order, every later index
  is out of bounds as well, and ending the walk there gives the same value as going on.
\<close>

theorem out_of_bounds_index_is_absent:
  assumes "Compile eng tmpl cg = Inr r"
  shows "findFirstNonEmptySubmatchForField r fld sub = firstNonEmptySkipping (indicesOf r fld) sub \<and>
         findFirstNonEmptySubmatchForField r fld sub =
           firstNonEmpty (filter (\<lambda>i. i < length sub) (indicesOf r fld)) sub"
proof -
  from assms have "sorted_wrt (<) (indicesOf r fld)"
    by (rule Compile_sorted)
  then have "firstNonEmpty (indicesOf r fld) sub = firstNonEmptySkipping (indicesOf r fld) sub"
    by (rule firstNonEmpty_sorted_skipping)
  then show ?thesis
    by (simp add: findFirstNonEmptySubmatchForField_def firstNonEmptySkipping_filter)
qed

text \<open>
  The field \<open>Name\<close> of the alternatives matcher has the indices 1 and 2; against two
  submatches the index 2 is out of bounds.
\<close>

theorem out_of_bounds_index_is_absent_witness:
  "Compile exampleEngine ''a {{.Name}}|b {{.Name}}'' (VStruct (CaptureGroups ''[a-z]+'' ''[0-9]+''))
     = Inr matcherAlternatives \<and>
   indicesOf matcherAlternatives ''Name'' = [1, 2] \<and>
   filter (\<lambda>i. i < length [''m'', []]) (indicesOf matcherAlternatives ''Name'') = [1] \<and>
   findFirstNonEmptySubmatchForField matcherAlternatives ''Name'' [''m'', []] = firstNonEmpty [1] [''m'', []] \<and>
   findFirstNonEmptySubmatchForField matcherAlternatives ''Name'' [''m'', []] =
     firstNonEmptySkipping [1, 2] [''m'', []]"
proof -
  have idx: "indicesOf matcherAlternatives ''Name'' = [1, 2]"
    by (simp add: matcherAlternatives_def indicesOf_def)
  from out_of_bounds_index_is_absent[OF Compile_alternatives, of "''Name''" "[''m'', []]"]
  show ?thesis
    using Compile_alternatives idx by simp
qed

section \<open>FindAll is bounded by the length of the slice\<close>

text \<open>
  Claim C4. For a compiled matcher, an input with the successive matches \<open>ms\<close> and an
  output slice of the schema's type, \<open>FindAll\<close> returns a count \<open>n\<close> that exceeds
  neither the length of the slice nor the number of matches, and that is the length of the
  slice when the input holds more matches than that. Over a slice of structs, slot \<open>i\<close>
  below \<open>n\<close> holds the assignment of match \<open>i\<close> and every other slot is as it was.
  Over a slice of pointers, only structs addressed by the first \<open>n\<close> slots change, and
  when the slots address different structs, the struct of slot \<open>i\<close> below \<open>n\<close> holds
  the assignment of match \<open>i\<close>. The capacity the specification speaks of is the
  length of the slice: the code asks for \<open>slice.Len()\<close> matches.
\<close>

theorem FindAll_bounded_by_slice_length:
  assumes "Compile eng tmpl cg = Inr r"
    and "t = typeOfStruct (captureGroups r)"
    and "ms = AllStringSubmatch (pattern r) s"
  shows "(wellTyped h (VSlice t vs) \<longrightarrow>
            (\<exists>n vs'. FindAll r s (VSlice t vs) h = Inr (n, VSlice t vs', h) \<and>
               n \<le> length vs \<and> n \<le> length ms \<and>
               (length vs < length ms \<longrightarrow> n = length vs) \<and>
               length vs' = length vs \<and>
               (\<forall>i<length vs. vs' ! i =
                  (if i < n then assignedStruct r (ms ! i) (vs ! i) else vs ! i)))) \<and>
         (wellTyped h (VPtrSlice t ps) \<longrightarrow>
            (\<exists>n h'. FindAll r s (VPtrSlice t ps) h = Inr (n, VPtrSlice t ps, h') \<and>
               n \<le> length ps \<and> n \<le> length ms \<and>
               (length ps < length ms \<longrightarrow> n = length ps) \<and>
               (\<forall>a. Some a \<notin> set (take n ps) \<longrightarrow> h' a = h a) \<and>
               (distinctSlots ps \<longrightarrow>
                  (\<forall>i<n. \<forall>a. ps ! i = Some a \<longrightarrow> h' a = assignedStruct r (ms ! i) (h a)))))"
proof -
  from assms(1) have st: "list_all settableString (sfields (captureGroups r))"
    by (rule Compile_settable)
  have structs: "\<exists>n vs'. FindAll r s (VSlice t vs) h = Inr (n, VSlice t vs', h) \<and>
               n \<le> length vs \<and> n \<le> length ms \<and>
               (length vs < length ms \<longrightarrow> n = length vs) \<and>
               length vs' = length vs \<and>
               (\<forall>i<length vs. vs' ! i =
                  (if i < n then assignedStruct r (ms ! i) (vs ! i) else vs ! i))"
    if "wellTyped h (VSlice t vs)"
  proof -
    from that have wt: "list_all (\<lambda>v. typeOfStruct v = typeOfStruct (captureGroups r)) vs"
      using assms(2) by simp
    let ?n = "min (length vs) (length ms)"
    let ?vs' = "map2 (assignedStruct r) (take (length vs) ms) (take (length ms) vs)
                  @ drop (length ms) vs"
    have run: "FindAll r s (VSlice t vs) h = Inr (?n, VSlice t ?vs', h)"
      using FindAll_structs[OF st wt, of s h] assms(2,3) by simp
    have len: "length ?vs' = length vs" by (simp add: min_def)
    have nth: "\<forall>i<length vs. ?vs' ! i =
                  (if i < ?n then assignedStruct r (ms ! i) (vs ! i) else vs ! i)"
      by (simp add: written_nth)
    show ?thesis
      using run len nth by (intro exI[of _ ?n] exI[of _ ?vs']) simp
  qed
  have pointers: "\<exists>n h'. FindAll r s (VPtrSlice t ps) h = Inr (n, VPtrSlice t ps, h') \<and>
               n \<le> length ps \<and> n \<le> length ms \<and>
               (length ps < length ms \<longrightarrow> n = length ps) \<and>
               (\<forall>a. Some a \<notin> set (take n ps) \<longrightarrow> h' a = h a) \<and>
               (distinctSlots ps \<longrightarrow>
                  (\<forall>i<n. \<forall>a. ps ! i = Some a \<longrightarrow> h' a = assignedStruct r (ms ! i) (h a)))"
    if "wellTyped h (VPtrSlice t ps)"
  proof -
    from that have wt: "list_all (\<lambda>p. case p of None \<Rightarrow> True
                | Some a \<Rightarrow> typeOfStruct (h a) = typeOfStruct (captureGroups r)) ps"
      using assms(2) by simp
    let ?n = "min (length ps) (length ms)"
    from FindAll_pointers[OF st wt, of s] obtain h' where
      run: "FindAll r s (VPtrSlice t ps) h = Inr (?n, VPtrSlice t ps, h')"
      and loop: "assignAllPtr r (take (length ps) ms) ps h = Inr h'"
      using assms(2,3) by auto
    have lens: "length (take (length ps) ms) \<le> length ps" "length (take (length ps) ms) = ?n"
      by (simp_all add: min_def)
    from assignAllPtr_ok[OF st wt lens(1)] loop
    have frame: "\<forall>a. Some a \<notin> set (take ?n ps) \<longrightarrow> h' a = h a"
      unfolding lens(2) by simp
    have slots: "\<forall>i<?n. \<forall>a. ps ! i = Some a \<longrightarrow> h' a = assignedStruct r (ms ! i) (h a)"
      if d: "distinctSlots ps"
    proof (intro allI impI)
      fix i a
      assume i: "i < ?n" and pa: "ps ! i = Some a"
      from i have i': "i < length (take (length ps) ms)" by simp
      have "h' a = assignedStruct r (take (length ps) ms ! i) (h a)"
        using st wt lens(1) d loop i' pa by (rule assignAllPtr_slots)
      with i show "h' a = assignedStruct r (ms ! i) (h a)" by simp
    qed
    show ?thesis
      using run frame slots by (intro exI[of _ ?n] exI[of _ h']) simp
  qed
  from structs pointers show ?thesis by blast
qed

text \<open>
  \<open>TestFindAll\<close>: three matches in the input, two slots; the count is 2 and the slots
  hold \<open>foo\<close> and \<open>bar\<close>, over structs and over pointers.
\<close>

theorem FindAll_bounded_by_slice_length_witness:
  "Compile exampleEngine ''a {{.Name}}|b {{.Name}}'' (VStruct (CaptureGroups ''[a-z]+'' ''[0-9]+''))
     = Inr matcherAlternatives \<and>
   length (AllStringSubmatch (pattern matcherAlternatives) ''a foo b bar a baz extra'') = 3 \<and>
   wellTyped (\<lambda>a. CaptureGroups [] []) (VSlice CaptureGroupsT [CaptureGroups [] [], CaptureGroups [] []]) \<and>
   wellTyped (\<lambda>a. CaptureGroups [] []) (VPtrSlice CaptureGroupsT [Some 0, Some 1]) \<and>
   FindAll matcherAlternatives ''a foo b bar a baz extra''
     (VSlice CaptureGroupsT [CaptureGroups [] [], CaptureGroups [] []]) (\<lambda>a. CaptureGroups [] []) =
   Inr (2, VSlice CaptureGroupsT [CaptureGroups ''foo'' [], CaptureGroups ''bar'' []],
        \<lambda>a. CaptureGroups [] []) \<and>
   (\<exists>h'. FindAll matcherAlternatives ''a foo b bar a baz extra''
           (VPtrSlice CaptureGroupsT [Some 0, Some 1]) (\<lambda>a. CaptureGroups [] []) =
         Inr (2, VPtrSlice CaptureGroupsT [Some 0, Some 1], h') \<and>
         h' 0 = CaptureGroups ''foo'' [] \<and> h' 1 = CaptureGroups ''bar'' [] \<and>
         h' 2 = CaptureGroups [] [])"
proof -
  let ?h = "\<lambda>a::nat. CaptureGroups [] []"
  let ?s = "''a foo b bar a baz extra''"
  let ?ms = "AllStringSubmatch (pattern matcherAlternatives) ?s"
  have wt1: "wellTyped ?h (VSlice CaptureGroupsT [CaptureGroups [] [], CaptureGroups [] []])"
    by (simp add: typeOf_CaptureGroups)
  have wt2: "wellTyped ?h (VPtrSlice CaptureGroupsT [Some 0, Some 1])"
    by (simp add: typeOf_CaptureGroups)
  have ms: "length ?ms = 3"
    by (simp add: AllStringSubmatch_alternatives)
  note inst = FindAll_bounded_by_slice_length[OF Compile_alternatives
      typeOf_matcherAlternatives[symmetric] refl, where h = ?h and s = ?s]
  from inst[where vs = "[CaptureGroups [] [], CaptureGroups [] []]" and ps = "[]"] wt1
  obtain n vs' where
    "FindAll matcherAlternatives ?s (VSlice CaptureGroupsT [CaptureGroups [] [], CaptureGroups [] []]) ?h
       = Inr (n, VSlice CaptureGroupsT vs', ?h)"
    and "length [CaptureGroups [] [], CaptureGroups [] []] < length ?ms \<longrightarrow>
           n = length [CaptureGroups [] [], CaptureGroups [] []]"
    by blast
  with ms have n: "n = 2" by simp
  from inst[where vs = "[]" and ps = "[Some 0, Some 1]"] wt2
  obtain m h' where run: "FindAll matcherAlternatives ?s (VPtrSlice CaptureGroupsT [Some 0, Some 1]) ?h
       = Inr (m, VPtrSlice CaptureGroupsT [Some 0, Some 1], h')"
    and m: "length [Some (0::nat), Some 1] < length ?ms \<longrightarrow> m = length [Some (0::nat), Some 1]"
    and frame: "\<forall>a. Some a \<notin> set (take m [Some 0, Some 1]) \<longrightarrow> h' a = ?h a"
    and slots: "distinctSlots [Some 0, Some 1] \<longrightarrow>
                  (\<forall>i<m. \<forall>a. [Some 0, Some 1] ! i = Some a \<longrightarrow>
                     h' a = assignedStruct matcherAlternatives (?ms ! i) (?h a))"
    by blast
  from m ms have m2: "m = 2" by simp
  have d: "distinctSlots [Some (0::nat), Some 1]"
    by (simp add: distinctSlots_def)
  from slots d m2 have "h' 0 = assignedStruct matcherAlternatives (?ms ! 0) (?h 0)"
    and "h' 1 = assignedStruct matcherAlternatives (?ms ! 1) (?h 1)"
    by simp_all
  then have h0: "h' 0 = CaptureGroups ''foo'' []" and h1: "h' 1 = CaptureGroups ''bar'' []"
    by (simp_all add: assignedStruct_def assignedField_def reAlternatives_def
        CaptureGroups_def matcherAlternatives_def findFirstNonEmptySubmatchForField_def
        indicesOf_def)
  from frame m2 have h2: "h' 2 = CaptureGroups [] []"
    by simp
  show ?thesis
    using Compile_alternatives ms wt1 wt2 FindAll_alternatives_structs[of ?h] run m2 h0 h1 h2
    by simp
qed

section \<open>Nil slots of a slice of pointers\<close>

text \<open>
  Claim C5. Over a slice of pointers whose non-nil slots address different structs,
  \<open>FindAll\<close> returns the slice as it was given (a nil slot stays nil), and in the
  store the struct of a non-nil slot \<open>j\<close> holds the assignment of match \<open>j\<close> when
  \<open>j\<close> is below the count and is unchanged otherwise; structs no slot addresses are
  unchanged. So the match paired with a nil slot is assigned nowhere, and the matches after
  it go to the slots after it.
\<close>

theorem FindAll_passes_over_nil_slots:
  assumes "Compile eng tmpl cg = Inr r"
    and "t = typeOfStruct (captureGroups r)"
    and "ms = AllStringSubmatch (pattern r) s"
    and "wellTyped h (VPtrSlice t ps)"
    and "distinctSlots ps"
  shows "\<exists>n h'. FindAll r s (VPtrSlice t ps) h = Inr (n, VPtrSlice t ps, h') \<and>
           n = min (length ps) (length ms) \<and>
           (\<forall>j<length ps. \<forall>a. ps ! j = Some a \<longrightarrow>
              h' a = (if j < n then assignedStruct r (ms ! j) (h a) else h a)) \<and>
           (\<forall>a. Some a \<notin> set ps \<longrightarrow> h' a = h a)"
proof -
  from assms(1) have st: "list_all settableString (sfields (captureGroups r))"
    by (rule Compile_settable)
  from assms(2,4) have wt: "list_all (\<lambda>p. case p of None \<Rightarrow> True
                | Some a \<Rightarrow> typeOfStruct (h a) = typeOfStruct (captureGroups r)) ps"
    by simp
  let ?n = "min (length ps) (length ms)"
  from FindAll_pointers[OF st wt, of s] obtain h' where
    run: "FindAll r s (VPtrSlice t ps) h = Inr (?n, VPtrSlice t ps, h')"
    and loop: "assignAllPtr r (take (length ps) ms) ps h = Inr h'"
    using assms(2,3) by auto
  have lens: "length (take (length ps) ms) \<le> length ps" "length (take (length ps) ms) = ?n"
    by (simp_all add: min_def)
  from assignAllPtr_ok[OF st wt lens(1)] loop
  have frame: "\<And>a. Some a \<notin> set (take ?n ps) \<Longrightarrow> h' a = h a"
    unfolding lens(2) by simp
  have slots: "h' a = (if j < ?n then assignedStruct r (ms ! j) (h a) else h a)"
    if j: "j < length ps" and pa: "ps ! j = Some a" for j a
  proof (cases "j < ?n")
    case True
    then have j': "j < length (take (length ps) ms)" by simp
    have "h' a = assignedStruct r (take (length ps) ms ! j) (h a)"
      using st wt lens(1) assms(5) loop j' pa by (rule assignAllPtr_slots)
    with True show ?thesis by simp
  next
    case False
    then have "?n \<le> j" by linarith
    with assms(5) have "Some a \<notin> set (take ?n ps)"
      using j pa by (rule distinctSlots_later)
    then have "h' a = h a" by (rule frame)
    with False show ?thesis by auto
  qed
  have others: "h' a = h a" if "Some a \<notin> set ps" for a
  proof -
    from that have "Some a \<notin> set (take ?n ps)"
      by (auto dest: in_set_takeD)
    then show ?thesis by (rule frame)
  qed
  show ?thesis
    using run slots others by (intro exI[of _ ?n] exI[of _ h']) simp
qed

text \<open>
  \<open>TestFindAll_SliceOfPtrs\<close>: the first slot is nil, the second receives the second
  match, \<open>bar\<close>; the struct at address 0, which no slot addresses, is unchanged.
\<close>

theorem FindAll_passes_over_nil_slots_witness:
  "Compile exampleEngine ''a {{.Name}}|b {{.Name}}'' (VStruct (CaptureGroups ''[a-z]+'' ''[0-9]+''))
     = Inr matcherAlternatives \<and>
   wellTyped (\<lambda>a. CaptureGroups [] []) (VPtrSlice CaptureGroupsT [None, Some 1]) \<and>
   distinctSlots [None, Some 1] \<and>
   (\<exists>h'. FindAll matcherAlternatives ''a foo b bar a baz extra''
           (VPtrSlice CaptureGroupsT [None, Some 1]) (\<lambda>a. CaptureGroups [] []) =
         Inr (2, VPtrSlice CaptureGroupsT [None, Some 1], h') \<and>
         h' 1 = CaptureGroups ''bar'' [] \<and>
         h' 0 = CaptureGroups [] [])"
proof -
  let ?h = "\<lambda>a::nat. CaptureGroups [] []"
  let ?s = "''a foo b bar a baz extra''"
  let ?ms = "AllStringSubmatch (pattern matcherAlternatives) ?s"
  have wt: "wellTyped ?h (VPtrSlice CaptureGroupsT [None, Some 1])"
    by (simp add: typeOf_CaptureGroups)
  have d: "distinctSlots [None, Some (1::nat)]"
    by (simp add: distinctSlots_def)
  have ms: "length ?ms = 3"
    by (simp add: AllStringSubmatch_alternatives)
  from FindAll_passes_over_nil_slots[OF Compile_alternatives
      typeOf_matcherAlternatives[symmetric] refl wt d, where s = ?s]
  obtain n h' where run: "FindAll matcherAlternatives ?s (VPtrSlice CaptureGroupsT [None, Some 1]) ?h
       = Inr (n, VPtrSlice CaptureGroupsT [None, Some 1], h')"
    and n: "n = min (length [None, Some (1::nat)]) (length ?ms)"
    and slots: "\<forall>j<length [None, Some (1::nat)]. \<forall>a. [None, Some 1] ! j = Some a \<longrightarrow>
              h' a = (if j < n then assignedStruct matcherAlternatives (?ms ! j) (?h a) else ?h a)"
    and others: "\<forall>a. Some a \<notin> set [None, Some 1] \<longrightarrow> h' a = ?h a"
    by blast
  from n ms have n2: "n = 2" by simp
  from slots n2 have "h' 1 = assignedStruct matcherAlternatives (?ms ! 1) (?h 1)"
    by simp
  then have h1: "h' 1 = CaptureGroups ''bar'' []"
    by (simp add: assignedStruct_def assignedField_def reAlternatives_def
        CaptureGroups_def matcherAlternatives_def findFirstNonEmptySubmatchForField_def
        indicesOf_def)
  from others have h0: "h' 0 = CaptureGroups [] []"
    by simp
  show ?thesis
    using Compile_alternatives wt d run n2 h1 h0 by simp
qed

section \<open>Rejected schemas\<close>

lemma wrapFields_accepted:
  "list_all (fieldAccepted eng) fs \<Longrightarrow> wrapFields eng fs = Inr (map wrappedField fs)"
proof (induction fs)
  case Nil
  then show ?case by simp
next
  case (Cons f fs)
  from Cons.prems have f: "fieldAccepted eng f" and fs: "list_all (fieldAccepted eng) fs"
    by simp_all
  from f obtain p re where p: "fvalue f = VStr p" "fexported f" "p \<noteq> []"
    and c: "regexp_Compile eng p = Inr re"
    by (cases "fvalue f"; cases "regexp_Compile eng (case fvalue f of VStr p \<Rightarrow> p | VOther \<Rightarrow> [])")
       (auto simp: fieldAccepted_def)
  from fs have "wrapFields eng fs = Inr (map wrappedField fs)" by (rule Cons.IH)
  with p c show ?case
    by (simp add: wrappedField_def)
qed

lemma wrapFields_first_rejected:
  "list_all (fieldAccepted eng) pre \<Longrightarrow> fvalue f = VStr p \<Longrightarrow> fexported f \<Longrightarrow>
   wrapFields eng (pre @ f # post) =
     (if p = [] then Inl (ErrFieldEmpty (fname f))
      else case regexp_Compile eng p of
             Inl err \<Rightarrow> Inl (ErrFieldRegex (fname f) err)
           | Inr re \<Rightarrow> (case wrapFields eng post of
                          Inl e \<Rightarrow> Inl e
                        | Inr ws \<Rightarrow> Inr (map wrappedField pre @ wrappedField f # ws)))"
proof (induction pre)
  case Nil
  then show ?case
    by (simp add: wrappedField_def split: sum.splits)
next
  case (Cons g pre)
  from Cons.prems have g: "fieldAccepted eng g" and pre: "list_all (fieldAccepted eng) pre"
    by simp_all
  from g have "wrapFields eng [g] = Inr (map wrappedField [g])"
    by (intro wrapFields_accepted) simp
  then obtain q re where q: "fvalue g = VStr q" "fexported g" "q \<noteq> []"
    and c: "regexp_Compile eng q = Inr re"
    by (auto split: fval.splits if_splits sum.splits)
  have w: "wrappedField g = Field (fname g) (fexported g) (ftname g)
             (VStr (''(?P<'' @ fname g @ ''>'' @ q @ '')''))"
    using q by (simp add: wrappedField_def)
  from Cons.IH[OF pre Cons.prems(2,3)] q c w show ?case
    by (simp split: sum.splits)
qed

text \<open>
  Claim C8. The fields are checked in declaration order. Let \<open>f\<close> be the first field
  that is not accepted, a settable string field with the sub-pattern \<open>p\<close>, all fields
  before it being accepted. When \<open>p\<close> is empty, compilation fails with the error that
  names \<open>f\<close> as empty; when \<open>p\<close> does not compile on its own, it fails with the
  error that names \<open>f\<close> and carries the engine's message. In both cases the error is
  the one \<open>wrapFieldsInCaptureGroups\<close> returns, whatever the template is and whatever
  the engines would answer on the template or on a composite pattern: neither is consulted,
  and no matcher is returned.
\<close>

theorem Compile_rejects_offending_field:
  assumes "list_all (fieldAccepted eng) pre"
    and "fvalue f = VStr p"
    and "fexported f"
    and "schema = GStruct n (pre @ f # post)"
  shows "(p = [] \<longrightarrow>
            wrapFieldsInCaptureGroups eng schema = Inl (ErrFieldEmpty (fname f)) \<and>
            Compile eng tmpl (VStruct schema) = Inl (ErrFieldEmpty (fname f))) \<and>
         (p \<noteq> [] \<longrightarrow> regexp_Compile eng p = Inl err \<longrightarrow>
            wrapFieldsInCaptureGroups eng schema = Inl (ErrFieldRegex (fname f) err) \<and>
            Compile eng tmpl (VStruct schema) = Inl (ErrFieldRegex (fname f) err))"
  using wrapFields_first_rejected[OF assms(1,2,3), of post] assms(4)
  by (simp add: Compile_def)

text \<open>
  After the accepted field \<open>Name\<close>, the field \<open>S0m3th1ng\<close> is empty, or holds the
  unbalanced \<open>(\<close> of \<open>TestWrapFieldsInCaptureGroups\<close>.
\<close>

theorem Compile_rejects_offending_field_witness:
  "list_all (fieldAccepted exampleEngine) [Field ''Name'' True ''string'' (VStr ''[a-z]+'')] \<and>
   Compile exampleEngine ''{{.Name}}( {{.S0m3th1ng}})?'' (VStruct (CaptureGroups ''[a-z]+'' []))
     = Inl (ErrFieldEmpty ''S0m3th1ng'') \<and>
   regexp_Compile exampleEngine ''('' = Inl ''error parsing regexp: missing closing ): `(`'' \<and>
   Compile exampleEngine ''{{.Name}}( {{.S0m3th1ng}})?'' (VStruct (CaptureGroups ''[a-z]+'' ''(''))
     = Inl (ErrFieldRegex ''S0m3th1ng'' ''error parsing regexp: missing closing ): `(`'')"
proof -
  have acc: "list_all (fieldAccepted exampleEngine) [Field ''Name'' True ''string'' (VStr ''[a-z]+'')]"
    by (simp add: fieldAccepted_def exampleEngine_def examplePatterns_def)
  have bad: "regexp_Compile exampleEngine ''('' = Inl ''error parsing regexp: missing closing ): `(`''"
    by (simp add: exampleEngine_def examplePatterns_def)
  have s1: "CaptureGroups ''[a-z]+'' [] =
      GStruct ''typedregexp.CaptureGroups''
        ([Field ''Name'' True ''string'' (VStr ''[a-z]+'')] @
          Field ''S0m3th1ng'' True ''string'' (VStr []) # [])"
    and s2: "CaptureGroups ''[a-z]+'' ''('' =
      GStruct ''typedregexp.CaptureGroups''
        ([Field ''Name'' True ''string'' (VStr ''[a-z]+'')] @
          Field ''S0m3th1ng'' True ''string'' (VStr ''('') # [])"
    by (simp_all add: CaptureGroups_def)
  from Compile_rejects_offending_field[OF acc _ _ s1,
      where tmpl = "''{{.Name}}( {{.S0m3th1ng}})?''" and p = "[]"]
  have a: "Compile exampleEngine ''{{.Name}}( {{.S0m3th1ng}})?'' (VStruct (CaptureGroups ''[a-z]+'' []))
     = Inl (ErrFieldEmpty ''S0m3th1ng'')"
    by simp
  from Compile_rejects_offending_field[OF acc _ _ s2,
      where tmpl = "''{{.Name}}( {{.S0m3th1ng}})?''" and p = "''(''"
        and err = "''error parsing regexp: missing closing ): `(`''"] bad
  have b: "Compile exampleEngine ''{{.Name}}( {{.S0m3th1ng}})?'' (VStruct (CaptureGroups ''[a-z]+'' ''(''))
     = Inl (ErrFieldRegex ''S0m3th1ng'' ''error parsing regexp: missing closing ): `(`'')"
    by simp
  from acc a bad b show ?thesis by simp
qed

section \<open>Successful compilation and the index it builds\<close>

lemma indicesOf_buildIndices:
  "submatchIndicesByFieldName r = buildIndices fieldNames names 0 Map.empty \<Longrightarrow>
   indicesOf r fld = (if fld \<in> set fieldNames then positions fld names 0 else [])"
  using buildIndices_lookup[of fieldNames names 0 Map.empty fld]
  by (simp add: indicesOf_def)

lemma positions_filter:
  "positions fld names 0 = filter (\<lambda>i. names ! i = fld) [0..<length names]"
  by (simp add: positions_upt)

lemma positions_nonempty: "fld \<in> set names \<Longrightarrow> positions fld names i \<noteq> []"
  by (induction names arbitrary: i) auto

text \<open>
  Claim C7 as stated fails: a schema of accepted fields and a template that references
  every field do not make compilation succeed. The template \<open>({{.Name}} {{.S0m3th1ng}}\<close>
  references both fields of the schema, both sub-patterns are accepted and the field names
  differ, yet the composite pattern has an unbalanced parenthesis and \<open>Compile\<close> returns
  the error of \<open>regexp.Compile\<close>. Likewise for the field-less schema and the template
  \<open>(\<close> of \<open>TestMustCompile\<close>. And where compilation succeeds, a reference in the
  template need not become a group of the composite pattern: the template
  \<open>{{if false}}{{.Name}} {{.S0m3th1ng}}{{end}}x\<close> references both fields and writes
  \<open>x\<close>, and the matcher's index map is empty.
\<close>

theorem Compile_fails_on_unbalanced_template:
  "list_all (fieldAccepted exampleEngine) (sfields (CaptureGroups ''[a-z]+'' ''[0-9]+'')) \<and>
   distinct (map fname (sfields (CaptureGroups ''[a-z]+'' ''[0-9]+''))) \<and>
   referencesField ''({{.Name}} {{.S0m3th1ng}}'' ''Name'' \<and>
   referencesField ''({{.Name}} {{.S0m3th1ng}}'' ''S0m3th1ng'' \<and>
   Compile exampleEngine ''({{.Name}} {{.S0m3th1ng}}'' (VStruct (CaptureGroups ''[a-z]+'' ''[0-9]+'')) =
     Inl (ErrComposite ''((?P<Name>[a-z]+) (?P<S0m3th1ng>[0-9]+)''
            ''error parsing regexp: missing closing ): `((?P<Name>[a-z]+) (?P<S0m3th1ng>[0-9]+)`'') \<and>
   Compile exampleEngine ''('' (VStruct (GStruct ''struct {}'' [])) =
     Inl (ErrComposite ''('' ''error parsing regexp: missing closing ): `(`'') \<and>
   referencesField ''{{if false}}{{.Name}} {{.S0m3th1ng}}{{end}}x'' ''Name'' \<and>
   referencesField ''{{if false}}{{.Name}} {{.S0m3th1ng}}{{end}}x'' ''S0m3th1ng'' \<and>
   Compile exampleEngine ''{{if false}}{{.Name}} {{.S0m3th1ng}}{{end}}x''
       (VStruct (CaptureGroups ''[a-z]+'' ''[0-9]+'')) =
     Inr \<lparr> pattern = reNoGroups,
           captureGroups = CaptureGroups ''(?P<Name>[a-z]+)'' ''(?P<S0m3th1ng>[0-9]+)'',
           submatchIndicesByFieldName = Map.empty \<rparr>"
  by (simp add: fieldAccepted_def exampleEngine_def examplePatterns_def exampleTemplates_def
      CaptureGroups_def referencesField_def Compile_def fillPatternTemplate_def reNoGroups_def)

text \<open>
  Claim C7, amended. For a schema whose fields are all accepted, when the template
  substitution succeeds and the composite pattern compiles, \<open>Compile\<close> succeeds. The keys
  of the matcher's index map are the field names that occur among the group names of the
  compiled pattern; the list of a field holds, in ascending order, the positions at which
  its name stands among the group names. So every field whose name the compiled pattern
  reports for a group has at least one index.
\<close>

theorem Compile_succeeds_when_composite_compiles:
  assumes "list_all (fieldAccepted eng) fs"
    and "fillPatternTemplate eng tmpl (GStruct n (map wrappedField fs)) = Inr pat"
    and "regexp_Compile eng pat = Inr re"
  shows "\<exists>r. Compile eng tmpl (VStruct (GStruct n fs)) = Inr r \<and>
           pattern r = re \<and>
           captureGroups r = GStruct n (map wrappedField fs) \<and>
           dom (submatchIndicesByFieldName r) = set (map fname fs) \<inter> set (SubexpNames re) \<and>
           (\<forall>f\<in>set fs. indicesOf r (fname f) =
              filter (\<lambda>i. SubexpNames re ! i = fname f) [0..<length (SubexpNames re)]) \<and>
           (\<forall>f\<in>set fs. fname f \<in> set (SubexpNames re) \<longrightarrow>
              fname f \<in> dom (submatchIndicesByFieldName r) \<and> indicesOf r (fname f) \<noteq> [])"
proof -
  let ?r = "\<lparr> pattern = re, captureGroups = GStruct n (map wrappedField fs),
              submatchIndicesByFieldName =
                buildIndices (map fname fs) (SubexpNames re) 0 Map.empty \<rparr>"
  from assms(1) have "wrapFields eng fs = Inr (map wrappedField fs)"
    by (rule wrapFields_accepted)
  with assms(2,3) have run: "Compile eng tmpl (VStruct (GStruct n fs)) = Inr ?r"
    by (simp add: Compile_def)
  have idx: "indicesOf ?r fld =
               (if fld \<in> set (map fname fs) then positions fld (SubexpNames re) 0 else [])" for fld
    by (rule indicesOf_buildIndices) simp
  have d: "dom (submatchIndicesByFieldName ?r) = set (map fname fs) \<inter> set (SubexpNames re)"
    using buildIndices_dom[of _ "map fname fs" "SubexpNames re" 0 Map.empty] by auto
  have a: "\<forall>f\<in>set fs. indicesOf ?r (fname f) =
              filter (\<lambda>i. SubexpNames re ! i = fname f) [0..<length (SubexpNames re)]"
    by (simp add: idx positions_filter)
  have b: "\<forall>f\<in>set fs. fname f \<in> set (SubexpNames re) \<longrightarrow>
              fname f \<in> dom (submatchIndicesByFieldName ?r) \<and> indicesOf ?r (fname f) \<noteq> []"
    using d by (auto simp: idx positions_nonempty)
  show ?thesis
    using run d a b by (intro exI[of _ ?r]) simp
qed

text \<open>
  The schema and template of \<open>TestFind_PartialFields\<close>: the group names are the whole
  match, \<open>Name\<close>, an unnamed group and \<open>S0m3th1ng\<close>; the indices are 1 and 3.
\<close>

theorem Compile_succeeds_when_composite_compiles_witness:
  "list_all (fieldAccepted exampleEngine) (sfields (CaptureGroups ''[a-z]+'' ''[a-z]+'')) \<and>
   fillPatternTemplate exampleEngine ''{{.Name}}( {{.S0m3th1ng}})?''
     (GStruct ''typedregexp.CaptureGroups'' (map wrappedField (sfields (CaptureGroups ''[a-z]+'' ''[a-z]+''))))
     = Inr ''(?P<Name>[a-z]+)( (?P<S0m3th1ng>[a-z]+))?'' \<and>
   regexp_Compile exampleEngine ''(?P<Name>[a-z]+)( (?P<S0m3th1ng>[a-z]+))?'' = Inr reOptional \<and>
   SubexpNames reOptional = [[], ''Name'', [], ''S0m3th1ng''] \<and>
   (\<exists>r. Compile exampleEngine ''{{.Name}}( {{.S0m3th1ng}})?'' (VStruct (CaptureGroups ''[a-z]+'' ''[a-z]+''))
          = Inr r \<and>
        dom (submatchIndicesByFieldName r) = {''Name'', ''S0m3th1ng''} \<and>
        indicesOf r ''Name'' = [1] \<and> indicesOf r ''S0m3th1ng'' = [3])"
proof -
  let ?fs = "sfields (CaptureGroups ''[a-z]+'' ''[a-z]+'')"
  have acc: "list_all (fieldAccepted exampleEngine) ?fs"
    by (simp add: fieldAccepted_def exampleEngine_def examplePatterns_def CaptureGroups_def)
  have fill: "fillPatternTemplate exampleEngine ''{{.Name}}( {{.S0m3th1ng}})?''
     (GStruct ''typedregexp.CaptureGroups'' (map wrappedField ?fs))
     = Inr ''(?P<Name>[a-z]+)( (?P<S0m3th1ng>[a-z]+))?''"
    by (simp add: fillPatternTemplate_def exampleEngine_def exampleTemplates_def
        CaptureGroups_def wrappedField_def)
  have re: "regexp_Compile exampleEngine ''(?P<Name>[a-z]+)( (?P<S0m3th1ng>[a-z]+))?'' = Inr reOptional"
    by (simp add: exampleEngine_def examplePatterns_def)
  have names: "SubexpNames reOptional = [[], ''Name'', [], ''S0m3th1ng'']"
    by (simp add: reOptional_def)
  have s: "CaptureGroups ''[a-z]+'' ''[a-z]+'' = GStruct ''typedregexp.CaptureGroups'' ?fs"
    by (simp add: CaptureGroups_def)
  from Compile_succeeds_when_composite_compiles[OF acc fill re]
  obtain r where run: "Compile exampleEngine ''{{.Name}}( {{.S0m3th1ng}})?''
          (VStruct (GStruct ''typedregexp.CaptureGroups'' ?fs)) = Inr r"
    and d: "dom (submatchIndicesByFieldName r) = set (map fname ?fs) \<inter> set (SubexpNames reOptional)"
    and i: "\<forall>f\<in>set ?fs. indicesOf r (fname f) =
              filter (\<lambda>i. SubexpNames reOptional ! i = fname f) [0..<length (SubexpNames reOptional)]"
    by blast
  from d have d': "dom (submatchIndicesByFieldName r) = {''Name'', ''S0m3th1ng''}"
    by (auto simp: names CaptureGroups_def)
  have up: "[0..<4] = [0, 1, 2, 3::nat]"
    by (simp add: upt_rec)
  from i have "indicesOf r ''Name'' = [1] \<and> indicesOf r ''S0m3th1ng'' = [3]"
    by (simp add: names CaptureGroups_def up)
  with run d' s acc fill re names show ?thesis
    by auto
qed

section \<open>The type check of the entry points\<close>

lemma Find_type_mismatch:
  "typeOf vals \<noteq> Some (TPtr (typeOfStruct (captureGroups r))) \<Longrightarrow>
   Find r s vals h =
     Inl (case typeOf vals of
            None \<Rightarrow> PanicZeroValue
          | Some vt \<Rightarrow> PanicValuesType (TPtr (typeOfStruct (captureGroups r))) vt)"
  by (cases "typeOf vals") (simp_all add: Find_def Let_def)

lemma FindAll_type_mismatch:
  "typeOf vals \<noteq> Some (TSlice (typeOfStruct (captureGroups r))) \<Longrightarrow>
   typeOf vals \<noteq> Some (TSlice (TPtr (typeOfStruct (captureGroups r)))) \<Longrightarrow>
   FindAll r s vals h =
     Inl (case typeOf vals of
            None \<Rightarrow> PanicZeroValue
          | Some st \<Rightarrow> PanicSliceType (TSlice (typeOfStruct (captureGroups r)))
                        (TSlice (TPtr (typeOfStruct (captureGroups r)))) st)"
  by (cases "typeOf vals") (simp_all add: FindAll_def Let_def)

lemma shapeOfFind_exact:
  "typeOf vals = Some (TPtr (typeOfStruct (captureGroups r))) \<Longrightarrow>
   shapeOfFind (typeOf vals) = Some (schemaShape r)"
  by (cases "captureGroups r") (simp add: schemaShape_def)

lemma shapeOfFindAll_exact:
  "typeOf vals = Some (TSlice (typeOfStruct (captureGroups r))) \<or>
   typeOf vals = Some (TSlice (TPtr (typeOfStruct (captureGroups r)))) \<Longrightarrow>
   shapeOfFindAll (typeOf vals) = Some (schemaShape r)"
  by (cases "captureGroups r") (auto simp: schemaShape_def)

text \<open>
  Claim C9. When the output value is not a pointer to a struct with the field
  declarations of the schema, \<open>Find\<close> panics; when it is neither a slice of such
  structs nor a slice of pointers to them, \<open>FindAll\<close> panics. The panic is the one of
  the type check (or, for an untyped nil, of reading its type): it is the same for every
  input string and every compiled pattern, so no matching precedes it. The matcher is a
  value the call cannot change, so only the call is aborted.
\<close>

theorem shape_mismatch_panics:
  "(shapeOfFind (typeOf vals) \<noteq> Some (schemaShape r) \<longrightarrow>
      Find r s vals h =
        Inl (case typeOf vals of
               None \<Rightarrow> PanicZeroValue
             | Some vt \<Rightarrow> PanicValuesType (TPtr (typeOfStruct (captureGroups r))) vt)) \<and>
   (shapeOfFindAll (typeOf vals) \<noteq> Some (schemaShape r) \<longrightarrow>
      FindAll r s vals h =
        Inl (case typeOf vals of
               None \<Rightarrow> PanicZeroValue
             | Some st \<Rightarrow> PanicSliceType (TSlice (typeOfStruct (captureGroups r)))
                           (TSlice (TPtr (typeOfStruct (captureGroups r)))) st))"
proof (intro conjI impI)
  assume "shapeOfFind (typeOf vals) \<noteq> Some (schemaShape r)"
  then have "typeOf vals \<noteq> Some (TPtr (typeOfStruct (captureGroups r)))"
    using shapeOfFind_exact[of vals r] by blast
  then show "Find r s vals h =
        Inl (case typeOf vals of
               None \<Rightarrow> PanicZeroValue
             | Some vt \<Rightarrow> PanicValuesType (TPtr (typeOfStruct (captureGroups r))) vt)"
    by (rule Find_type_mismatch)
next
  assume "shapeOfFindAll (typeOf vals) \<noteq> Some (schemaShape r)"
  then have "typeOf vals \<noteq> Some (TSlice (typeOfStruct (captureGroups r)))"
    and "typeOf vals \<noteq> Some (TSlice (TPtr (typeOfStruct (captureGroups r))))"
    using shapeOfFindAll_exact[of vals r] by blast+
  then show "FindAll r s vals h =
        Inl (case typeOf vals of
               None \<Rightarrow> PanicZeroValue
             | Some st \<Rightarrow> PanicSliceType (TSlice (typeOfStruct (captureGroups r)))
                           (TSlice (TPtr (typeOfStruct (captureGroups r)))) st)"
    by (rule FindAll_type_mismatch)
qed

text \<open>
  \<open>TestFind_WrongType\<close> and \<open>TestFindAll_WrongType\<close>: a pointer to and a slice of
  \<open>InvalidFieldType\<close>, and a \<open>CaptureGroups\<close> passed by value.
\<close>

theorem shape_mismatch_panics_witness:
  "shapeOfFind (typeOf (VPtr InvalidFieldTypeT (Some 0))) \<noteq> Some (schemaShape matcherAlternatives) \<and>
   Find matcherAlternatives ''foo'' (VPtr InvalidFieldTypeT (Some 0)) emptyStore =
     Inl (PanicValuesType (TPtr CaptureGroupsT) (TPtr InvalidFieldTypeT)) \<and>
   shapeOfFind (typeOf (VStruct (CaptureGroups [] []))) \<noteq> Some (schemaShape matcherAlternatives) \<and>
   Find matcherAlternatives ''foo'' (VStruct (CaptureGroups [] [])) emptyStore =
     Inl (PanicValuesType (TPtr CaptureGroupsT) CaptureGroupsT) \<and>
   shapeOfFindAll (typeOf (VSlice InvalidFieldTypeT [])) \<noteq> Some (schemaShape matcherAlternatives) \<and>
   FindAll matcherAlternatives ''foo'' (VSlice InvalidFieldTypeT []) emptyStore =
     Inl (PanicSliceType (TSlice CaptureGroupsT) (TSlice (TPtr CaptureGroupsT))
            (TSlice InvalidFieldTypeT)) \<and>
   shapeOfFindAll (typeOf (VStruct (CaptureGroups [] []))) \<noteq> Some (schemaShape matcherAlternatives) \<and>
   FindAll matcherAlternatives ''foo'' (VStruct (CaptureGroups [] [])) emptyStore =
     Inl (PanicSliceType (TSlice CaptureGroupsT) (TSlice (TPtr CaptureGroupsT)) CaptureGroupsT)"
proof -
  have sh: "schemaShape matcherAlternatives =
              [FType ''Name'' True ''string'' KString, FType ''S0m3th1ng'' True ''string'' KString]"
    by (simp add: schemaShape_def matcherAlternatives_def CaptureGroups_def)
  have 1: "shapeOfFind (typeOf (VPtr InvalidFieldTypeT (Some 0))) \<noteq> Some (schemaShape matcherAlternatives)"
    and 2: "shapeOfFind (typeOf (VStruct (CaptureGroups [] []))) \<noteq> Some (schemaShape matcherAlternatives)"
    and 3: "shapeOfFindAll (typeOf (VSlice InvalidFieldTypeT [])) \<noteq> Some (schemaShape matcherAlternatives)"
    and 4: "shapeOfFindAll (typeOf (VStruct (CaptureGroups [] []))) \<noteq> Some (schemaShape matcherAlternatives)"
    by (simp_all add: sh InvalidFieldTypeT_def CaptureGroups_def)
  note inst = shape_mismatch_panics[where r = matcherAlternatives and s = "''foo''" and h = emptyStore]
  from inst[where vals = "VPtr InvalidFieldTypeT (Some 0)"] 1
  have a: "Find matcherAlternatives ''foo'' (VPtr InvalidFieldTypeT (Some 0)) emptyStore =
     Inl (PanicValuesType (TPtr CaptureGroupsT) (TPtr InvalidFieldTypeT))"
    by (simp add: typeOf_matcherAlternatives)
  from inst[where vals = "VStruct (CaptureGroups [] [])"] 2
  have b: "Find matcherAlternatives ''foo'' (VStruct (CaptureGroups [] [])) emptyStore =
     Inl (PanicValuesType (TPtr CaptureGroupsT) CaptureGroupsT)"
    by (simp add: typeOf_matcherAlternatives typeOf_CaptureGroups)
  from inst[where vals = "VSlice InvalidFieldTypeT []"] 3
  have c: "FindAll matcherAlternatives ''foo'' (VSlice InvalidFieldTypeT []) emptyStore =
     Inl (PanicSliceType (TSlice CaptureGroupsT) (TSlice (TPtr CaptureGroupsT))
            (TSlice InvalidFieldTypeT))"
    by (simp add: typeOf_matcherAlternatives)
  from inst[where vals = "VStruct (CaptureGroups [] [])"] 4
  have d: "FindAll matcherAlternatives ''foo'' (VStruct (CaptureGroups [] [])) emptyStore =
     Inl (PanicSliceType (TSlice CaptureGroupsT) (TSlice (TPtr CaptureGroupsT)) CaptureGroupsT)"
    by (simp add: typeOf_matcherAlternatives typeOf_CaptureGroups)
  from 1 2 3 4 a b c d show ?thesis by blast
qed

text \<open>
  Claim C10. The check compares types, not shapes. With \<open>t\<close> the struct type given
  to \<open>Compile\<close>: \<open>Find\<close> panics on every value whose type is not the pointer type
  to \<open>t\<close>, and \<open>FindAll\<close> on every value whose type is neither the slice type of
  \<open>t\<close> nor the slice type of pointers to \<open>t\<close>. In particular a struct type with the
  same field declarations under another name has the shape of the schema and is rejected,
  as a pointer by \<open>Find\<close> and as a slice of structs or of pointers by \<open>FindAll\<close>.
\<close>

theorem type_check_is_by_identity:
  assumes "t = typeOfStruct (captureGroups r)"
  shows "(typeOf vals \<noteq> Some (TPtr t) \<longrightarrow>
            Find r s vals h =
              Inl (case typeOf vals of
                     None \<Rightarrow> PanicZeroValue
                   | Some vt \<Rightarrow> PanicValuesType (TPtr t) vt)) \<and>
         (typeOf vals \<noteq> Some (TSlice t) \<and> typeOf vals \<noteq> Some (TSlice (TPtr t)) \<longrightarrow>
            FindAll r s vals h =
              Inl (case typeOf vals of
                     None \<Rightarrow> PanicZeroValue
                   | Some st \<Rightarrow> PanicSliceType (TSlice t) (TSlice (TPtr t)) st)) \<and>
         (t = TStruct n fts \<and> n' \<noteq> n \<longrightarrow>
            shapeOfFind (typeOf (VPtr (TStruct n' fts) p)) = Some (schemaShape r) \<and>
            Find r s (VPtr (TStruct n' fts) p) h =
              Inl (PanicValuesType (TPtr t) (TPtr (TStruct n' fts))) \<and>
            FindAll r s (VSlice (TStruct n' fts) xs) h =
              Inl (PanicSliceType (TSlice t) (TSlice (TPtr t)) (TSlice (TStruct n' fts))) \<and>
            FindAll r s (VPtrSlice (TStruct n' fts) ps) h =
              Inl (PanicSliceType (TSlice t) (TSlice (TPtr t)) (TSlice (TPtr (TStruct n' fts)))))"
proof (intro conjI impI)
  assume "typeOf vals \<noteq> Some (TPtr t)"
  then show "Find r s vals h =
              Inl (case typeOf vals of
                     None \<Rightarrow> PanicZeroValue
                   | Some vt \<Rightarrow> PanicValuesType (TPtr t) vt)"
    unfolding assms by (rule Find_type_mismatch)
next
  assume "typeOf vals \<noteq> Some (TSlice t) \<and> typeOf vals \<noteq> Some (TSlice (TPtr t))"
  then show "FindAll r s vals h =
              Inl (case typeOf vals of
                     None \<Rightarrow> PanicZeroValue
                   | Some st \<Rightarrow> PanicSliceType (TSlice t) (TSlice (TPtr t)) st)"
    unfolding assms by (simp add: FindAll_type_mismatch)
next
  assume a: "t = TStruct n fts \<and> n' \<noteq> n"
  with assms show "shapeOfFind (typeOf (VPtr (TStruct n' fts) p)) = Some (schemaShape r)"
    by (cases "captureGroups r") (auto simp: schemaShape_def)
next
  assume a: "t = TStruct n fts \<and> n' \<noteq> n"
  then have "typeOf (VPtr (TStruct n' fts) p) \<noteq> Some (TPtr (typeOfStruct (captureGroups r)))"
    using assms by auto
  from Find_type_mismatch[OF this] assms
  show "Find r s (VPtr (TStruct n' fts) p) h =
              Inl (PanicValuesType (TPtr t) (TPtr (TStruct n' fts)))"
    by simp
next
  assume a: "t = TStruct n fts \<and> n' \<noteq> n"
  then have "typeOf (VSlice (TStruct n' fts) xs) \<noteq> Some (TSlice (typeOfStruct (captureGroups r)))"
    and "typeOf (VSlice (TStruct n' fts) xs) \<noteq> Some (TSlice (TPtr (typeOfStruct (captureGroups r))))"
    using assms by auto
  from FindAll_type_mismatch[OF this] assms
  show "FindAll r s (VSlice (TStruct n' fts) xs) h =
              Inl (PanicSliceType (TSlice t) (TSlice (TPtr t)) (TSlice (TStruct n' fts)))"
    by simp
next
  assume a: "t = TStruct n fts \<and> n' \<noteq> n"
  then have "typeOf (VPtrSlice (TStruct n' fts) ps) \<noteq> Some (TSlice (typeOfStruct (captureGroups r)))"
    and "typeOf (VPtrSlice (TStruct n' fts) ps) \<noteq> Some (TSlice (TPtr (typeOfStruct (captureGroups r))))"
    using assms by auto
  from FindAll_type_mismatch[OF this] assms
  show "FindAll r s (VPtrSlice (TStruct n' fts) ps) h =
              Inl (PanicSliceType (TSlice t) (TSlice (TPtr t)) (TSlice (TPtr (TStruct n' fts))))"
    by simp
qed

text \<open>
  The twin of \<open>CaptureGroups\<close>: same fields, another name.
\<close>

theorem type_check_is_by_identity_witness:
  "CaptureGroupsT = typeOfStruct (captureGroups matcherAlternatives) \<and>
   shapeOfFind (typeOf (VPtr CaptureGroupsTwinT (Some 0))) = Some (schemaShape matcherAlternatives) \<and>
   typeOf (VPtr CaptureGroupsTwinT (Some 0)) \<noteq> Some (TPtr CaptureGroupsT) \<and>
   Find matcherAlternatives ''a foo'' (VPtr CaptureGroupsTwinT (Some 0)) emptyStore =
     Inl (PanicValuesType (TPtr CaptureGroupsT) (TPtr CaptureGroupsTwinT)) \<and>
   FindAll matcherAlternatives ''a foo'' (VSlice CaptureGroupsTwinT []) emptyStore =
     Inl (PanicSliceType (TSlice CaptureGroupsT) (TSlice (TPtr CaptureGroupsT))
            (TSlice CaptureGroupsTwinT)) \<and>
   FindAll matcherAlternatives ''a foo'' (VPtrSlice CaptureGroupsTwinT [Some 0]) emptyStore =
     Inl (PanicSliceType (TSlice CaptureGroupsT) (TSlice (TPtr CaptureGroupsT))
            (TSlice (TPtr CaptureGroupsTwinT)))"
proof -
  have t: "CaptureGroupsT = typeOfStruct (captureGroups matcherAlternatives)"
    by (simp add: typeOf_matcherAlternatives)
  have ne: "typeOf (VPtr CaptureGroupsTwinT (Some 0)) \<noteq> Some (TPtr CaptureGroupsT)"
    by (simp add: CaptureGroupsTwinT_def CaptureGroupsT_def)
  have twin: "CaptureGroupsT = TStruct ''typedregexp.CaptureGroups''
                [FType ''Name'' True ''string'' KString, FType ''S0m3th1ng'' True ''string'' KString] \<and>
              ''typedregexp.CaptureGroupsTwin'' \<noteq> ''typedregexp.CaptureGroups''"
    by (simp add: CaptureGroupsT_def)
  from type_check_is_by_identity[OF t, where n = "''typedregexp.CaptureGroups''"
      and n' = "''typedregexp.CaptureGroupsTwin''"
      and fts = "[FType ''Name'' True ''string'' KString, FType ''S0m3th1ng'' True ''string'' KString]"
      and s = "''a foo''" and h = emptyStore and p = "Some 0" and xs = "[]" and ps = "[Some 0]"
      and vals = "VPtr CaptureGroupsTwinT (Some 0)"] twin
  have "shapeOfFind (typeOf (VPtr CaptureGroupsTwinT (Some 0))) = Some (schemaShape matcherAlternatives) \<and>
   Find matcherAlternatives ''a foo'' (VPtr CaptureGroupsTwinT (Some 0)) emptyStore =
     Inl (PanicValuesType (TPtr CaptureGroupsT) (TPtr CaptureGroupsTwinT)) \<and>
   FindAll matcherAlternatives ''a foo'' (VSlice CaptureGroupsTwinT []) emptyStore =
     Inl (PanicSliceType (TSlice CaptureGroupsT) (TSlice (TPtr CaptureGroupsT))
            (TSlice CaptureGroupsTwinT)) \<and>
   FindAll matcherAlternatives ''a foo'' (VPtrSlice CaptureGroupsTwinT [Some 0]) emptyStore =
     Inl (PanicSliceType (TSlice CaptureGroupsT) (TSlice (TPtr CaptureGroupsT))
            (TSlice (TPtr CaptureGroupsTwinT)))"
    unfolding CaptureGroupsTwinT_def by blast
  with t ne show ?thesis by blast
qed

end
